theory Spec2Isabelle
  imports Main "HOL-Library.AList"
begin

section \<open>Data model\<close>

text \<open>
  The engine types the module works on, reduced to the fields that \<^verbatim>\<open>equiper.ts\<close>
  reads or writes. A field that the engine declares optional and that the module only tests
  for truthiness (\<^verbatim>\<open>BodyCosplay\<close>, \<^verbatim>\<open>Underwear\<close>, \<^verbatim>\<open>OwnerOnly\<close>, \<^verbatim>\<open>LoverOnly\<close>)
  is a \<open>bool\<close>, with \<^verbatim>\<open>undefined\<close> read as \<open>False\<close>; a field the module tests against
  \<^verbatim>\<open>undefined\<close> or \<^verbatim>\<open>null\<close> is an \<open>option\<close>.
\<close>

record AssetGroup =
  AssetGroup_Name :: string
  Category :: string
  AllowNone :: bool
  Underwear :: bool

record Asset =
  Asset_Name :: string
  Description :: string
  Asset_Group :: AssetGroup
  BodyCosplay :: bool
  Asset_Block :: "string list option"
  OwnerOnly :: bool
  LoverOnly :: bool
  DefaultColor :: "string list"
  Prerequisite :: "string list"

record CraftingItem =
  Craft_Name :: string
  Craft_Property :: "string option"

text \<open>
  A property bag is a JavaScript object: keys in insertion order, each with a value.
  Property bags have an identity (two references may denote the same object), so a worn
  item and an item descriptor hold the address of their bag in a store. The values of a
  bag are plain data: strings, numbers, booleans, and arrays and objects of such values.
  An array or an object inside a bag is an object of the heap as well, and two bags may
  hold the same one: each carries its identity.
\<close>

type_synonym oid = nat

datatype JSValue =
    JSString string
  | JSNumber int
  | JSBool bool
  | JSArray oid "JSValue list"
  | JSObject oid "(string \<times> JSValue) list"

type_synonym PropertyBag = "(string \<times> JSValue) list"

type_synonym addr = nat

record Item =
  Item_Asset :: Asset
  Item_Color :: "string list"
  Item_Difficulty :: int
  Item_Craft :: "CraftingItem option"
  Item_Property :: "addr option"

record SharedSettings =
  BlockBodyCosplay :: "bool option"

record Character =
  Appearance :: "Item list"
  IsSimple :: bool
  IsPlayer :: bool
  OnlineSharedSettings :: "SharedSettings option"
  AssetFamily :: string
  MemberNumber :: "int option"

text \<open>Every \<^verbatim>\<open>throw\<close> of the module is a value of this type.\<close>

datatype error =
    InvalidStripLevel int
  | ExpectedSimpleOrPlayer
  | InvalidItemListType
  | UnknownAsset string string

section \<open>Strip policy\<close>

text \<open>
  \<^verbatim>\<open>StripLevel\<close> is a frozen object of five numbers; a strip level is a number, and
  \<^verbatim>\<open>getStripCondition\<close> throws on any other.
\<close>

definition StripLevel_NONE :: int where "StripLevel_NONE = 0"
definition StripLevel_CLOTHES :: int where "StripLevel_CLOTHES = 1"
definition StripLevel_UNDERWEAR :: int where "StripLevel_UNDERWEAR = 2"
definition StripLevel_COSPLAY :: int where "StripLevel_COSPLAY = 3"
definition StripLevel_ALL :: int where "StripLevel_ALL = 4"

text \<open>\<^verbatim>\<open>character.OnlineSharedSettings?.BlockBodyCosplay ?? true\<close>\<close>

definition blockBodyCosplay :: "Character \<Rightarrow> bool" where
  "blockBodyCosplay character =
     (case OnlineSharedSettings character of
        None \<Rightarrow> True
      | Some settings \<Rightarrow> (case BlockBodyCosplay settings of None \<Rightarrow> True | Some b \<Rightarrow> b))"

definition getStripCondition :: "int \<Rightarrow> Character \<Rightarrow> error + (Asset \<Rightarrow> bool)" where
  "getStripCondition stripLevel character =
     (if stripLevel = StripLevel_NONE then
        Inr (\<lambda>asset. False)
      else if stripLevel = StripLevel_CLOTHES then
        Inr (\<lambda>asset. AllowNone (Asset_Group asset) \<and> \<not> BodyCosplay asset
                      \<and> \<not> Underwear (Asset_Group asset))
      else if stripLevel = StripLevel_UNDERWEAR then
        Inr (\<lambda>asset. AllowNone (Asset_Group asset) \<and> \<not> BodyCosplay asset)
      else if stripLevel = StripLevel_COSPLAY then
        Inr (\<lambda>asset. if blockBodyCosplay character
                      then AllowNone (Asset_Group asset) \<and> \<not> BodyCosplay asset
                      else AllowNone (Asset_Group asset))
      else if stripLevel = StripLevel_ALL then
        Inr (\<lambda>asset. if blockBodyCosplay character
                      then AllowNone (Asset_Group asset) \<and> \<not> BodyCosplay asset
                      else True)
      else Inl (InvalidStripLevel stripLevel))"

text \<open>The returned predicate applied to an asset: \<^verbatim>\<open>getStripCondition(l, c)(asset)\<close>.\<close>

definition applyStripCondition :: "int \<Rightarrow> Character \<Rightarrow> Asset \<Rightarrow> error + bool" where
  "applyStripCondition stripLevel character asset =
     (case getStripCondition stripLevel character of
        Inl e \<Rightarrow> Inl e
      | Inr stripCondition \<Rightarrow> Inr (stripCondition asset))"

text \<open>
  The loop of \<^verbatim>\<open>characterStrip\<close>: \<open>stripLoop cond appearance (Suc i)\<close> is the iteration
  with loop variable \<open>i\<close>, so the loop starts at \<open>length appearance\<close>. Removing the entry
  at \<open>i\<close> leaves the entries below \<open>i\<close> in place, so \<open>appearance ! i\<close> is always in range.
\<close>

definition splice1 :: "nat \<Rightarrow> 'a list \<Rightarrow> 'a list" where
  "splice1 i xs = take i xs @ drop (Suc i) xs"

fun stripLoop :: "(Asset \<Rightarrow> bool) \<Rightarrow> Item list \<Rightarrow> nat \<Rightarrow> Item list" where
  "stripLoop stripCondition appearance 0 = appearance"
| "stripLoop stripCondition appearance (Suc i) =
     (let asset = Item_Asset (appearance ! i) in
      if AllowNone (Asset_Group asset)
         \<and> Category (Asset_Group asset) = ''Appearance''
         \<and> stripCondition asset
      then stripLoop stripCondition (splice1 i appearance) i
      else stripLoop stripCondition appearance i)"

text \<open>
  \<^verbatim>\<open>characterStrip\<close> mutates the character it is given. The model returns how the call
  ends (\<open>Inl\<close> the thrown value) together with the character after the call; \<open>None\<close> is a
  \<^verbatim>\<open>null\<close> character.
\<close>

definition characterStrip ::
  "int \<Rightarrow> Character option \<Rightarrow> (error + unit) \<times> Character option" where
  "characterStrip stripLevel character =
     (case character of
        None \<Rightarrow> (Inl ExpectedSimpleOrPlayer, character)
      | Some c \<Rightarrow>
          if \<not> (IsSimple c \<or> IsPlayer c) then (Inl ExpectedSimpleOrPlayer, character)
          else (case getStripCondition stripLevel c of
                  Inl e \<Rightarrow> (Inl e, character)
                | Inr stripCondition \<Rightarrow>
                    (Inr (),
                     Some (c\<lparr>Appearance :=
                        stripLoop stripCondition (Appearance c) (length (Appearance c))\<rparr>))))"

section \<open>The engine's collaborators\<close>

text \<open>
  The module calls into the game engine and into two sibling modules. The calls whose
  answers the module only consumes are parameters of the model, gathered in one record:
  nothing is assumed about them. \<^verbatim>\<open>getBaselineProperty\<close> and \<^verbatim>\<open>itemSetType\<close> belong to
  the sibling module \<^verbatim>\<open>type_setting\<close>; the others are engine globals.
  \<^verbatim>\<open>itemSetType\<close> and \<^verbatim>\<open>InventoryCraft\<close> update the worn item they are pointed at and
  may create or change property bags: they map the item and the store to the new ones.
\<close>

record ItemProperties =
  Property_Block :: "string list option"

type_synonym Store = "PropertyBag list"

record Engine =
  AssetGet :: "string \<Rightarrow> string \<Rightarrow> string \<Rightarrow> Asset option"
  getBaselineProperty :: "Asset \<Rightarrow> Character \<Rightarrow> string option \<Rightarrow> ItemProperties"
  InventoryGetLock :: "Item \<Rightarrow> Item option"
  InventoryItemHasEffect :: "Item \<Rightarrow> string \<Rightarrow> bool"
  InventoryBlockedOrLimited :: "Character \<Rightarrow> Asset \<Rightarrow> bool"
  InventoryAllow :: "Character \<Rightarrow> Asset \<Rightarrow> string list \<Rightarrow> bool"
  InventoryGroupIsBlocked :: "Character \<Rightarrow> string \<Rightarrow> bool"
  SkillGetWithRatio :: "string \<Rightarrow> int"
  itemSetType :: "Item \<Rightarrow> Character \<Rightarrow> string option \<Rightarrow> Store \<Rightarrow> Item \<times> Store"
  InventoryCraft :: "Item \<Rightarrow> Character \<Rightarrow> CraftingItem option \<Rightarrow> Store \<Rightarrow> Item \<times> Store"

section \<open>Dependency graph and priorities\<close>

text \<open>
  A \<^verbatim>\<open>Set\<close> and a \<^verbatim>\<open>Map\<close> keep their entries in insertion order. A set is a list
  without repetition, a map an association list with distinct keys; \<^verbatim>\<open>Map.set\<close> on a
  key already present replaces the value where it stands, which is \<^const>\<open>AList.update\<close>.
\<close>

definition Set_add :: "'a \<Rightarrow> 'a list \<Rightarrow> 'a list" where
  "Set_add x s = (if x \<in> set s then s else s @ [x])"

definition Set_from :: "'a list \<Rightarrow> 'a list" where
  "Set_from xs = fold Set_add xs []"

text \<open>
  \<^verbatim>\<open>new Set(...args)\<close>: the constructor reads its first argument only, as the iterable
  whose elements fill the set. Without an argument the set is empty. Here every argument
  is a group name, a string, and iterating a string yields its characters, each as a
  string of length one.
\<close>

definition Set_new :: "string list \<Rightarrow> string list" where
  "Set_new args = (case args of [] \<Rightarrow> [] | iterable # _ \<Rightarrow> Set_from (map (\<lambda>ch. [ch]) iterable))"

record Node =
  block :: "string list"
  priority :: "int option"

type_synonym Graph = "(string \<times> Node) list"

record SimpleItem =
  Name :: string
  Group :: string
  Type :: "string option"

text \<open>An argument that the module tests with \<^verbatim>\<open>Array.isArray\<close>.\<close>

datatype 'a arg = NotAnArray | ArrayOf "'a list"

text \<open>\<^verbatim>\<open>Math.max\<close> of a non-empty argument list (the only use the module makes of it).\<close>

fun Math_max :: "int list \<Rightarrow> int" where
  "Math_max (p # ps) = fold max ps p"

definition setPriority :: "string \<Rightarrow> int \<Rightarrow> Graph \<Rightarrow> Graph" where
  "setPriority grp p graph = AList.map_entry grp (\<lambda>node. node\<lparr>priority := Some p\<rparr>) graph"

text \<open>
  The \<^verbatim>\<open>for\<close> loop of \<^verbatim>\<open>itemsArgSortDFS\<close> over \<^verbatim>\<open>node.block\<close>, with the recursive
  call as a parameter. Each call may assign priorities, so the graph is threaded through.
\<close>

fun dfsLoop ::
  "(Graph \<Rightarrow> string \<Rightarrow> (Graph \<times> int) option) \<Rightarrow> Graph \<Rightarrow> string list \<Rightarrow> int list
   \<Rightarrow> (Graph \<times> int list) option" where
  "dfsLoop dfs graph [] priorities = Some (graph, priorities)"
| "dfsLoop dfs graph (grp # rest) priorities =
     (case dfs graph grp of
        None \<Rightarrow> None
      | Some (graph', p) \<Rightarrow> dfsLoop dfs graph' rest (priorities @ [p]))"

text \<open>
  \<^verbatim>\<open>itemsArgSortDFS(graph, node)\<close>. A node is an object that the graph holds under exactly
  one key, and the function is called on \<^verbatim>\<open>graph.get(group)\<close> or on a node that the
  iteration over the graph yields: the model passes the key and looks the node up, an
  absent key being the \<^verbatim>\<open>undefined\<close> node. The recursion has no bound in the source (a
  cycle of blocks never returns), so the model counts the nesting of calls: \<open>None\<close> says
  that the depth \<open>fuel\<close> did not suffice.
\<close>

primrec itemsArgSortDFS :: "nat \<Rightarrow> Graph \<Rightarrow> string \<Rightarrow> (Graph \<times> int) option" where
  "itemsArgSortDFS 0 graph grp = None"
| "itemsArgSortDFS (Suc fuel) graph grp =
     (case map_of graph grp of
        None \<Rightarrow> Some (graph, - 1)
      | Some node \<Rightarrow>
          (case priority node of
             Some p \<Rightarrow> Some (graph, p)
           | None \<Rightarrow>
               if block node = [] then Some (setPriority grp 0 graph, 0)
               else (case dfsLoop (itemsArgSortDFS fuel) graph (block node) [] of
                       None \<Rightarrow> None
                     | Some (graph', priorities) \<Rightarrow>
                         (let p = 1 + Math_max priorities
                          in Some (setPriority grp p graph', p)))))"

text \<open>The first loop of \<^verbatim>\<open>itemsArgSort\<close>: one node per item of the \<^verbatim>\<open>Item\<close> category.\<close>

definition orEmpty :: "'a list option \<Rightarrow> 'a list" where
  "orEmpty xs = (case xs of None \<Rightarrow> [] | Some ys \<Rightarrow> ys)"

fun buildGraph ::
  "Engine \<Rightarrow> Character \<Rightarrow> 'a SimpleItem_scheme list \<Rightarrow> Graph \<Rightarrow> error + Graph" where
  "buildGraph engine character [] graph = Inr graph"
| "buildGraph engine character (item # rest) graph =
     (case AssetGet engine (AssetFamily character) (Group item) (Name item) of
        None \<Rightarrow> Inl (UnknownAsset (Group item) (Name item))
      | Some asset \<Rightarrow>
          if Category (Asset_Group asset) \<noteq> ''Item'' then buildGraph engine character rest graph
          else
            (let property = getBaselineProperty engine asset character (Type item);
                 node = \<lparr>block = Set_new (orEmpty (Asset_Block asset)
                                           @ orEmpty (Property_Block property)),
                         priority = None\<rparr>
             in buildGraph engine character rest (AList.update (Group item) node graph)))"

text \<open>The second loop: a traversal from every node, in the order of the graph.\<close>

fun resolvePriorities :: "nat \<Rightarrow> string list \<Rightarrow> Graph \<Rightarrow> Graph option" where
  "resolvePriorities fuel [] graph = Some graph"
| "resolvePriorities fuel (grp # rest) graph =
     (case itemsArgSortDFS fuel graph grp of
        None \<Rightarrow> None
      | Some (graph', p) \<Rightarrow> resolvePriorities fuel rest graph')"

text \<open>The third loop: the record of priorities, one entry per node.\<close>

definition collectPriorities :: "Graph \<Rightarrow> (string \<times> int option) list" where
  "collectPriorities graph = map (\<lambda>(grp, node). (grp, priority node)) graph"

definition itemsArgSort ::
  "nat \<Rightarrow> Engine \<Rightarrow> 'a SimpleItem_scheme arg \<Rightarrow> Character
   \<Rightarrow> (error + (string \<times> int option) list) option" where
  "itemsArgSort fuel engine itemList character =
     (case itemList of
        NotAnArray \<Rightarrow> Some (Inl InvalidItemListType)
      | ArrayOf items \<Rightarrow>
          (case buildGraph engine character items [] of
             Inl e \<Rightarrow> Some (Inl e)
           | Inr graph \<Rightarrow>
               (case resolvePriorities fuel (map fst graph) graph of
                  None \<Rightarrow> None
                | Some graph' \<Rightarrow> Some (Inr (collectPriorities graph')))))"

section \<open>Sorting by priority\<close>

text \<open>
  The comparison function handed to \<^verbatim>\<open>Array.prototype.sort\<close> returns a number, here an
  integer or \<^verbatim>\<open>Infinity\<close>; the sort only asks whether it is negative.
\<close>

datatype number = Finite int | Infinity

definition isNegative :: "number \<Rightarrow> bool" where
  "isNegative v = (case v of Finite n \<Rightarrow> n < 0 | Infinity \<Rightarrow> False)"

text \<open>
  \<^verbatim>\<open>Array.prototype.sort(comparefn)\<close> as the V8 engine computes it on an array of fewer
  than 64 elements that has neither holes nor \<^verbatim>\<open>undefined\<close> entries: the leading run is
  found by comparing each element with its predecessor (and reversed when it descends), and
  the elements after the run are inserted by binary search. ECMAScript leaves the order to
  the engine when \<^verbatim>\<open>comparefn\<close> is not a consistent comparison; this is the order of the
  engine the module is run on.
\<close>

fun countRun :: "('a \<Rightarrow> 'a \<Rightarrow> number) \<Rightarrow> bool \<Rightarrow> 'a \<Rightarrow> 'a list \<Rightarrow> nat \<Rightarrow> nat" where
  "countRun comparefn isDescending previousElement [] runLength = runLength"
| "countRun comparefn isDescending previousElement (currentElement # rest) runLength =
     (let order = comparefn currentElement previousElement in
      if isDescending then
        (if \<not> isNegative order then runLength
         else countRun comparefn isDescending currentElement rest (Suc runLength))
      else
        (if isNegative order then runLength
         else countRun comparefn isDescending currentElement rest (Suc runLength)))"

definition CountAndMakeRun :: "('a \<Rightarrow> 'a \<Rightarrow> number) \<Rightarrow> 'a list \<Rightarrow> nat \<times> 'a list" where
  "CountAndMakeRun comparefn workArray =
     (case workArray of
        [] \<Rightarrow> (0, workArray)
      | [x] \<Rightarrow> (1, workArray)
      | elementHigh # elementLow # rest \<Rightarrow>
          (let order = comparefn elementLow elementHigh;
               isDescending = isNegative order;
               runLength = countRun comparefn isDescending elementLow rest 2
           in (runLength,
               if isDescending then rev (take runLength workArray) @ drop runLength workArray
               else workArray)))"

function binarySearch ::
  "('a \<Rightarrow> 'a \<Rightarrow> number) \<Rightarrow> 'a list \<Rightarrow> 'a \<Rightarrow> nat \<Rightarrow> nat \<Rightarrow> nat" where
  "binarySearch comparefn workArray pivot left right =
     (if left < right then
        (let mid = left + (right - left) div 2;
             order = comparefn pivot (workArray ! mid)
         in if isNegative order then binarySearch comparefn workArray pivot left mid
            else binarySearch comparefn workArray pivot (mid + 1) right)
      else left)"
  by pat_completeness auto
termination
  by (relation "measure (\<lambda>(comparefn, workArray, pivot, left, right). right - left)") auto

fun BinaryInsertionSort ::
  "('a \<Rightarrow> 'a \<Rightarrow> number) \<Rightarrow> 'a list \<Rightarrow> nat \<Rightarrow> nat \<Rightarrow> 'a list" where
  "BinaryInsertionSort comparefn workArray start 0 = workArray"
| "BinaryInsertionSort comparefn workArray start (Suc remaining) =
     (let pivot = workArray ! start;
          left = binarySearch comparefn workArray pivot 0 start
      in BinaryInsertionSort comparefn
           (take left workArray @ [pivot] @ take (start - left) (drop left workArray)
              @ drop (Suc start) workArray)
           (Suc start) remaining)"

definition Array_sort :: "('a \<Rightarrow> 'a \<Rightarrow> number) \<Rightarrow> 'a list \<Rightarrow> 'a list" where
  "Array_sort comparefn array =
     (if length array < 2 then array
      else (case CountAndMakeRun comparefn array of
              (runLength, workArray) \<Rightarrow>
                if runLength < length array
                then BinaryInsertionSort comparefn workArray runLength (length array - runLength)
                else workArray))"

text \<open>\<^verbatim>\<open>sortRecord[item.Group] ?? Infinity\<close>\<close>

definition sortKey :: "(string \<times> int option) list \<Rightarrow> 'a SimpleItem_scheme \<Rightarrow> number" where
  "sortKey sortRecord item =
     (case map_of sortRecord (Group item) of Some (Some p) \<Rightarrow> Finite p | _ \<Rightarrow> Infinity)"

text \<open>
  \<^verbatim>\<open>fortuneItemsSort\<close>. The arrow function passed to \<^verbatim>\<open>sort\<close> has one parameter: of the
  two elements that the sort hands it, it reads the first and ignores the second.
  \<^verbatim>\<open>itemsArgSort\<close> has thrown before the sort when the argument is not an array.
\<close>

definition fortuneItemsSort ::
  "nat \<Rightarrow> Engine \<Rightarrow> 'a SimpleItem_scheme arg \<Rightarrow> Character
   \<Rightarrow> (error + 'a SimpleItem_scheme list) option" where
  "fortuneItemsSort fuel engine itemList character =
     (case itemsArgSort fuel engine itemList character of
        None \<Rightarrow> None
      | Some (Inl e) \<Rightarrow> Some (Inl e)
      | Some (Inr sortRecord) \<Rightarrow>
          (case itemList of
             NotAnArray \<Rightarrow> Some (Inl InvalidItemListType)
           | ArrayOf items \<Rightarrow>
               Some (Inr (Array_sort (\<lambda>item other. sortKey sortRecord item) items))))"

section \<open>Unlocking\<close>

text \<open>\<^verbatim>\<open>item.Craft?.Property\<close>\<close>

definition craftProperty :: "Item \<Rightarrow> string option" where
  "craftProperty item = Option.bind (Item_Craft item) Craft_Property"

definition canUnlock :: "Engine \<Rightarrow> Item \<Rightarrow> bool" where
  "canUnlock engine item =
     (let lock = map_option Item_Asset (InventoryGetLock engine item) in
      if \<not> InventoryItemHasEffect engine item ''Lock'' then True
      else if craftProperty item = Some ''Decoy'' then
        (case lock of None \<Rightarrow> False | Some l \<Rightarrow> \<not> OwnerOnly l \<and> \<not> LoverOnly l)
      else False)"

section \<open>The equip transaction\<close>

text \<open>
  What a transaction can change: the character, the store of property bags, and the calls
  made to the refresh, notification and logging collaborators, recorded in order.
\<close>

datatype Effect =
    CharacterRefresh bool bool
  | ChatRoomCharacterUpdate
  | ConsoleLog string nat "(string \<times> string list) list"

record Outside =
  Store :: Store
  Effects :: "Effect list"

record World = Outside +
  Chr :: Character

text \<open>
  Callbacks are arbitrary functions of the caller. A callback that receives the live
  instance receives its slot, the instance being the occupant of that slot; \<^verbatim>\<open>Equip\<close> is
  called without an argument and is a reader of the world.
\<close>

type_synonym FortuneWheelCallback = "string \<Rightarrow> World \<Rightarrow> World"

record FortuneWheelItem = SimpleItem +
  Color :: "string list option"
  Craft :: "CraftingItem option"
  Property :: addr
  Equip :: "(World \<Rightarrow> bool) option"
  ItemCallback :: "FortuneWheelCallback option"
  Custom :: bool

type_synonym FortuneWheelPreRunCallback =
  "FortuneWheelItem list \<Rightarrow> World \<Rightarrow> FortuneWheelItem list \<times> World"

text \<open>
  Modelled from the spec: the engine's inventory collaborators are not part of the sources.
  A slot holds at most one item; get, remove and set act on the occupant of the slot in the
  worn-item sequence, and a newly set item has neither crafting data nor a property bag.
\<close>

definition inSlot :: "string \<Rightarrow> Item \<Rightarrow> bool" where
  "inSlot grp item = (AssetGroup_Name (Asset_Group (Item_Asset item)) = grp)"

definition InventoryGet :: "Character \<Rightarrow> string \<Rightarrow> Item option" where
  "InventoryGet c grp = find (inSlot grp) (Appearance c)"

definition InventoryRemove :: "Character \<Rightarrow> string \<Rightarrow> Character" where
  "InventoryRemove c grp = c\<lparr>Appearance := filter (\<lambda>item. \<not> inSlot grp item) (Appearance c)\<rparr>"

definition CharacterAppearanceSetItem ::
  "Character \<Rightarrow> string \<Rightarrow> Asset \<Rightarrow> string list \<Rightarrow> int \<Rightarrow> int option \<Rightarrow> Character" where
  "CharacterAppearanceSetItem c grp asset color difficulty memberNumber =
     c\<lparr>Appearance := filter (\<lambda>item. \<not> inSlot grp item) (Appearance c)
          @ [\<lparr>Item_Asset = asset, Item_Color = color, Item_Difficulty = difficulty,
              Item_Craft = None, Item_Property = None\<rparr>]\<rparr>"

text \<open>
  The live instance is an object of the worn-item sequence; the model holds items by
  value, so an update of the instance is written back to its slot.
\<close>

definition putItem :: "string \<Rightarrow> Item \<Rightarrow> Character \<Rightarrow> Character" where
  "putItem grp item c =
     c\<lparr>Appearance := map (\<lambda>old. if inSlot grp old then item else old) (Appearance c)\<rparr>"

text \<open>The body of the first loop: clear the slot that the item targets.\<close>

definition equipResult :: "FortuneWheelItem \<Rightarrow> World \<Rightarrow> bool" where
  "equipResult item w = (case Equip item of None \<Rightarrow> True | Some f \<Rightarrow> f w)"

definition equipChecks ::
  "Engine \<Rightarrow> Character \<Rightarrow> string \<Rightarrow> Asset \<Rightarrow> Item \<Rightarrow> (string \<times> bool) list" where
  "equipChecks engine character grp asset oldItem =
     [(''Locked item equiped'', \<not> canUnlock engine oldItem),
      (''InventoryBlockedOrLimited'', InventoryBlockedOrLimited engine character asset),
      (''InventoryAllow'', \<not> InventoryAllow engine character asset (Prerequisite asset)),
      (''InventoryGroupIsBlocked'', InventoryGroupIsBlocked engine character grp)]"

type_synonym FailureRecord = "(string \<times> string list) list"

definition clearStep ::
  "Engine \<Rightarrow> FortuneWheelItem \<Rightarrow> World \<times> FailureRecord \<times> string list
   \<Rightarrow> World \<times> FailureRecord \<times> string list" where
  "clearStep engine item state =
     (case state of (w, equipFailureRecord, equipCallbackOutputs) \<Rightarrow>
        (let asset = AssetGet engine (AssetFamily (Chr w)) (Group item) (Name item);
             oldItem = InventoryGet (Chr w) (Group item);
             equip = equipResult item w
         in case asset of
              None \<Rightarrow>
                (w, AList.update (Name item) [''Unknown asset''] equipFailureRecord,
                 equipCallbackOutputs)
            | Some a \<Rightarrow>
                if \<not> equip then
                  (w, equipFailureRecord, Set_add (Group item) equipCallbackOutputs)
                else
                  (case oldItem of
                     None \<Rightarrow> (w, equipFailureRecord, equipCallbackOutputs)
                   | Some old \<Rightarrow>
                       (let equipFailure =
                              filter snd (equipChecks engine (Chr w) (Group item) a old)
                        in if length equipFailure \<noteq> 0 then
                             (w, AList.update (Description a) (map fst equipFailure)
                                   equipFailureRecord,
                              equipCallbackOutputs)
                           else
                             (w\<lparr>Chr := InventoryRemove (Chr w) (Group item)\<rparr>,
                              equipFailureRecord, equipCallbackOutputs)))))"

definition firstPass ::
  "Engine \<Rightarrow> FortuneWheelItem list \<Rightarrow> World \<Rightarrow> World \<times> FailureRecord \<times> string list" where
  "firstPass engine itemList w = fold (clearStep engine) itemList (w, [], [])"

text \<open>The identities of the arrays and objects in a value, in a bag and in a store.\<close>

fun oidsOf :: "JSValue \<Rightarrow> oid list" where
  "oidsOf (JSString s) = []"
| "oidsOf (JSNumber n) = []"
| "oidsOf (JSBool b) = []"
| "oidsOf (JSArray i elements) = i # concat (map oidsOf elements)"
| "oidsOf (JSObject i entries) = i # concat (map (\<lambda>entry. oidsOf (snd entry)) entries)"

definition bagOids :: "PropertyBag \<Rightarrow> oid list" where
  "bagOids bag = concat (map (\<lambda>entry. oidsOf (snd entry)) bag)"

definition storeOids :: "Store \<Rightarrow> oid list" where
  "storeOids store = concat (map bagOids store)"

text \<open>The first identity above all identities in use.\<close>

definition freshOid :: "Store \<Rightarrow> oid" where
  "freshOid store = fold (\<lambda>i next. max (Suc i) next) (storeOids store) 0"

text \<open>The same data with other identities.\<close>

fun relabel :: "(oid \<Rightarrow> oid) \<Rightarrow> JSValue \<Rightarrow> JSValue" where
  "relabel f (JSString s) = JSString s"
| "relabel f (JSNumber n) = JSNumber n"
| "relabel f (JSBool b) = JSBool b"
| "relabel f (JSArray i elements) = JSArray (f i) (map (relabel f) elements)"
| "relabel f (JSObject i entries) =
     JSObject (f i) (map (\<lambda>entry. (fst entry, relabel f (snd entry))) entries)"

text \<open>
  Modelled from the spec: \<^verbatim>\<open>deepCopy\<close> of the sibling module \<^verbatim>\<open>common\<close> is not part of
  the sources. The copy is a new object with the keys and the data of the original: it
  takes the next free address of the store, and every array and object inside it is a new
  one too, whose identity is that of the original raised by the first free identity.
\<close>

definition deepCopy :: "addr \<Rightarrow> Store \<Rightarrow> addr \<times> Store" where
  "deepCopy a store =
     (length store,
      store @ [map (\<lambda>entry. (fst entry, relabel (\<lambda>i. freshOid store + i) (snd entry)))
                 (store ! a)])"

text \<open>\<^verbatim>\<open>Object.assign(target, source)\<close>: every entry of the source is set on the target.\<close>

definition Object_assign :: "addr \<Rightarrow> addr \<Rightarrow> Store \<Rightarrow> Store" where
  "Object_assign target source store =
     store[target := fold (\<lambda>(key, v) bag. AList.update key v bag) (store ! source) (store ! target)]"

text \<open>The property step of the second loop (the descriptor's bag is at \<open>declared\<close>).\<close>

definition mergeProperty :: "Item \<Rightarrow> addr \<Rightarrow> Store \<Rightarrow> Item \<times> Store" where
  "mergeProperty newItem declared store =
     (case Item_Property newItem of
        None \<Rightarrow>
          (case deepCopy declared store of
             (copy, store') \<Rightarrow> (newItem\<lparr>Item_Property := Some copy\<rparr>, store'))
      | Some target \<Rightarrow>
          (case deepCopy declared store of
             (copy, store') \<Rightarrow> (newItem, Object_assign target copy store')))"

text \<open>The second loop after the new item is in its slot and has been fetched again.\<close>

definition postProcess ::
  "Engine \<Rightarrow> FortuneWheelCallback option \<Rightarrow> FortuneWheelItem \<Rightarrow> Item \<Rightarrow> World \<Rightarrow> World" where
  "postProcess engine globalCallback item newItem w =
     (let grp = Group item;
          newItem1 = (case Craft item of None \<Rightarrow> newItem
                      | Some craft \<Rightarrow> newItem\<lparr>Item_Craft := Some craft\<rparr>);
          w1 = w\<lparr>Chr := putItem grp newItem1 (Chr w)\<rparr>
      in case itemSetType engine newItem1 (Chr w1) (Type item) (Store w1) of
           (newItem2, store2) \<Rightarrow>
             (let w2 = w1\<lparr>Chr := putItem grp newItem2 (Chr w1), Store := store2\<rparr>
              in case InventoryCraft engine newItem2 (Chr w2) (Craft item) (Store w2) of
                   (newItem3, store3) \<Rightarrow>
                     (case mergeProperty newItem3 (Property item) store3 of
                        (newItem4, store4) \<Rightarrow>
                          (let w4 = w2\<lparr>Chr := putItem grp newItem4 (Chr w2), Store := store4\<rparr>;
                               w5 = (case ItemCallback item of None \<Rightarrow> w4
                                     | Some f \<Rightarrow> f grp w4)
                           in case globalCallback of None \<Rightarrow> w5 | Some f \<Rightarrow> f grp w5))))"

definition equipStep ::
  "Engine \<Rightarrow> FortuneWheelCallback option \<Rightarrow> FailureRecord \<Rightarrow> string list
   \<Rightarrow> FortuneWheelItem \<Rightarrow> World \<Rightarrow> World" where
  "equipStep engine globalCallback equipFailureRecord equipCallbackOutputs item w =
     (let asset = AssetGet engine (AssetFamily (Chr w)) (Group item) (Name item);
          errList = map_of equipFailureRecord
                      (case asset of None \<Rightarrow> Name item | Some a \<Rightarrow> Description a)
      in case asset of
           None \<Rightarrow> w
         | Some a \<Rightarrow>
             if errList \<noteq> None \<or> Group item \<in> set equipCallbackOutputs then w
             else
               (let w1 = w\<lparr>Chr := CharacterAppearanceSetItem (Chr w) (Group item) a
                                     (case Color item of None \<Rightarrow> DefaultColor a | Some c \<Rightarrow> c)
                                     (SkillGetWithRatio engine ''Bondage'')
                                     (MemberNumber (Chr w))\<rparr>
                in case InventoryGet (Chr w1) (Group item) of
                     None \<Rightarrow> w1
                   | Some newItem \<Rightarrow> postProcess engine globalCallback item newItem w1))"

definition secondPass ::
  "Engine \<Rightarrow> FortuneWheelCallback option \<Rightarrow> FailureRecord \<Rightarrow> string list
   \<Rightarrow> FortuneWheelItem list \<Rightarrow> World \<Rightarrow> World" where
  "secondPass engine globalCallback equipFailureRecord equipCallbackOutputs itemList w =
     fold (equipStep engine globalCallback equipFailureRecord equipCallbackOutputs) itemList w"

text \<open>The refresh, the notification and the report that close the transaction.\<close>

definition finish :: "string \<Rightarrow> FailureRecord \<Rightarrow> World \<Rightarrow> World" where
  "finish name equipFailureRecord w =
     (if IsPlayer (Chr w) then
        (let nFailures = length equipFailureRecord
         in w\<lparr>Effects := Effects w @ [CharacterRefresh True False, ChatRoomCharacterUpdate]
                 @ (if nFailures \<noteq> 0 then [ConsoleLog name nFailures equipFailureRecord]
                    else [])\<rparr>)
      else w\<lparr>Effects := Effects w @ [CharacterRefresh False False]\<rparr>)"

text \<open>
  \<^verbatim>\<open>fortuneWheelEquip\<close>: how the call ends, the character and the rest of the world after
  it. \<^verbatim>\<open>characterStrip\<close> returns normally on a character only, so the third case of the
  inner distinction is never taken.
\<close>

definition fortuneWheelEquip ::
  "Engine \<Rightarrow> string \<Rightarrow> FortuneWheelItem arg \<Rightarrow> int \<Rightarrow> FortuneWheelCallback option
   \<Rightarrow> FortuneWheelPreRunCallback option \<Rightarrow> Character option \<Rightarrow> Outside
   \<Rightarrow> (error + unit) \<times> Character option \<times> Outside" where
  "fortuneWheelEquip engine name itemList stripLevel globalCallback preRunCallback character outside =
     (case itemList of
        NotAnArray \<Rightarrow> (Inl InvalidItemListType, character, outside)
      | ArrayOf items \<Rightarrow>
          (case characterStrip stripLevel character of
             (Inl e, character') \<Rightarrow> (Inl e, character', outside)
           | (Inr u, Some c) \<Rightarrow>
               (let w0 = \<lparr>Store = Store outside, Effects = Effects outside, Chr = c\<rparr>
                in case (case preRunCallback of None \<Rightarrow> (items, w0) | Some f \<Rightarrow> f items w0) of
                     (items', w1) \<Rightarrow>
                       (case firstPass engine items' w1 of
                          (w2, equipFailureRecord, equipCallbackOutputs) \<Rightarrow>
                            (let w3 = secondPass engine globalCallback equipFailureRecord
                                        equipCallbackOutputs items' w2;
                                 w4 = finish name equipFailureRecord w3
                             in (Inr (), Some (Chr w4),
                                 \<lparr>Store = Store w4, Effects = Effects w4\<rparr>))))
           | (Inr u, None) \<Rightarrow> (Inr u, None, outside)))"

section \<open>Notions used in the proofs\<close>

text \<open>
  The blocking relation of a graph: \<open>(b, k)\<close> when the node at \<open>k\<close> blocks \<open>b\<close> and \<open>b\<close>
  has a node of its own. A graph is acyclic when this relation is.
\<close>

definition blockEdges :: "Graph \<Rightarrow> (string \<times> string) set" where
  "blockEdges graph =
     {(b, k). \<exists>node. map_of graph k = Some node \<and> b \<in> set (block node) \<and> b \<in> fst ` set graph}"

text \<open>
  What a call of the traversal on a slot answers at once: \<open>- 1\<close> for a slot without a
  node, the stored priority for a resolved node, nothing for an unresolved one.
\<close>

definition prioOf :: "Graph \<Rightarrow> string \<Rightarrow> int option" where
  "prioOf graph grp = (case map_of graph grp of None \<Rightarrow> Some (- 1) | Some node \<Rightarrow> priority node)"

text \<open>The part of a graph that the traversal never changes: its keys and their block sets.\<close>

definition skeleton :: "Graph \<Rightarrow> (string \<times> string list) list" where
  "skeleton graph = map (\<lambda>(grp, node). (grp, block node)) graph"

text \<open>
  The invariant of the traversal: every resolved node has the priority that the recurrence
  gives from the priorities of the slots it blocks, all of which are resolved.
\<close>

definition consistent :: "Graph \<Rightarrow> bool" where
  "consistent graph =
     (\<forall>grp node p. map_of graph grp = Some node \<longrightarrow> priority node = Some p \<longrightarrow>
        (if block node = [] then p = 0
         else (\<forall>b \<in> set (block node). prioOf graph b \<noteq> None)
              \<and> p = 1 + Math_max (map (\<lambda>b. the (prioOf graph b)) (block node))))"

text \<open>A later graph keeps the skeleton and every answer of an earlier one.\<close>

definition keeps :: "Graph \<Rightarrow> Graph \<Rightarrow> bool" where
  "keeps graph graph' =
     (skeleton graph' = skeleton graph
      \<and> (\<forall>b v. prioOf graph b = Some v \<longrightarrow> prioOf graph' b = Some v))"

definition dfsSound :: "(Graph \<Rightarrow> string \<Rightarrow> (Graph \<times> int) option) \<Rightarrow> bool" where
  "dfsSound dfs =
     (\<forall>g k g' p. consistent g \<longrightarrow> dfs g k = Some (g', p) \<longrightarrow>
        consistent g' \<and> keeps g g' \<and> prioOf g' k = Some p)"

definition returnsFrom :: "nat \<Rightarrow> (string \<times> string list) list \<Rightarrow> string \<Rightarrow> bool" where
  "returnsFrom n sk k =
     (\<forall>g fuel. consistent g \<longrightarrow> skeleton g = sk \<longrightarrow> n \<le> fuel \<longrightarrow> itemsArgSortDFS fuel g k \<noteq> None)"

text \<open>The contribution of a blocked slot to the maximum, read off the priority record.\<close>

definition blockedPriority :: "(string \<times> int option) list \<Rightarrow> string \<Rightarrow> int" where
  "blockedPriority sortRecord b = (case map_of sortRecord b of Some (Some q) \<Rightarrow> q | _ \<Rightarrow> - 1)"

text \<open>What a value holds, the identities of its arrays and objects aside.\<close>

definition content :: "JSValue \<Rightarrow> JSValue" where
  "content v = relabel (\<lambda>i. 0) v"

section \<open>Example data\<close>

text \<open>
  A small catalogue, an engine over it and a few characters, for the concrete instances
  below. The example engine reads the lock of a worn item off the address of its property
  bag: an item with a bag has the lock effect, the bag at address \<open>1\<close> is locked by a
  plain padlock and the bag at address \<open>2\<close> by an owner padlock.
\<close>

definition mkGroup :: "string \<Rightarrow> string \<Rightarrow> AssetGroup" where
  "mkGroup name category =
     \<lparr>AssetGroup_Name = name, Category = category, AllowNone = True, Underwear = False\<rparr>"

definition mkAsset :: "string \<Rightarrow> AssetGroup \<Rightarrow> string list option \<Rightarrow> Asset" where
  "mkAsset name grp blocks =
     \<lparr>Asset_Name = name, Description = name, Asset_Group = grp, BodyCosplay = False,
      Asset_Block = blocks, OwnerOnly = False, LoverOnly = False,
      DefaultColor = [''Default''], Prerequisite = []\<rparr>"

definition leatherCuffs :: Asset where
  "leatherCuffs = mkAsset ''LeatherCuffs'' (mkGroup ''ItemArms'' ''Item'') (Some [''ItemHands''])"

definition dress :: Asset where
  "dress = mkAsset ''Dress'' (mkGroup ''Cloth'' ''Appearance'') None"

definition tail :: Asset where
  "tail = (mkAsset ''Tail'' (mkGroup ''TailStraps'' ''Appearance'') None)\<lparr>BodyCosplay := True\<rparr>"

definition fixedEars :: Asset where
  "fixedEars =
     (mkAsset ''Ears'' ((mkGroup ''Ears'' ''Appearance'')\<lparr>AllowNone := False\<rparr>) None)
       \<lparr>BodyCosplay := True\<rparr>"

definition testAssets :: "string \<Rightarrow> string \<Rightarrow> string \<Rightarrow> Asset option" where
  "testAssets family grp name =
     (if family \<noteq> ''Female3DCG'' then None
      else if grp = ''ItemArms'' \<and> name = ''LeatherCuffs'' then Some leatherCuffs
      else if grp = ''Cloth'' \<and> name = ''Dress'' then Some dress
      else if grp = ''A'' \<and> name = ''a''
        then Some (mkAsset ''a'' (mkGroup ''A'' ''Item'') (Some [''B'']))
      else if grp = ''B'' \<and> name = ''b''
        then Some (mkAsset ''b'' (mkGroup ''B'' ''Item'') None)
      else None)"

definition wornItem :: "Asset \<Rightarrow> CraftingItem option \<Rightarrow> addr option \<Rightarrow> Item" where
  "wornItem asset craft bag =
     \<lparr>Item_Asset = asset, Item_Color = DefaultColor asset, Item_Difficulty = 0,
      Item_Craft = craft, Item_Property = bag\<rparr>"

definition padlock :: Asset where
  "padlock = mkAsset ''MetalPadlock'' (mkGroup ''ItemMisc'' ''Item'') None"

definition ownerPadlock :: Asset where
  "ownerPadlock = (mkAsset ''OwnerPadlock'' (mkGroup ''ItemMisc'' ''Item'') None)\<lparr>OwnerOnly := True\<rparr>"

definition testEngine :: Engine where
  "testEngine =
     \<lparr>AssetGet = testAssets,
      getBaselineProperty = (\<lambda>asset character type.
         \<lparr>Property_Block =
            (if Asset_Name asset = ''LeatherCuffs'' then Some [''ItemFeet''] else None)\<rparr>),
      InventoryGetLock = (\<lambda>item.
         if Item_Property item = Some 1 then Some (wornItem padlock None None)
         else if Item_Property item = Some 2 then Some (wornItem ownerPadlock None None)
         else None),
      InventoryItemHasEffect = (\<lambda>item effect. effect = ''Lock'' \<and> Item_Property item \<noteq> None),
      InventoryBlockedOrLimited = (\<lambda>character asset. False),
      InventoryAllow = (\<lambda>character asset prerequisite. True),
      InventoryGroupIsBlocked = (\<lambda>character grp. False),
      SkillGetWithRatio = (\<lambda>skill. 0),
      itemSetType = (\<lambda>item character type store. (item, store)),
      InventoryCraft = (\<lambda>item character craft store. (item, store))\<rparr>"

definition blockingEngine :: Engine where
  "blockingEngine = testEngine\<lparr>InventoryGroupIsBlocked := (\<lambda>character grp. True)\<rparr>"

definition testCharacter :: Character where
  "testCharacter =
     \<lparr>Appearance = [], IsSimple = False, IsPlayer = True, OnlineSharedSettings = None,
      AssetFamily = ''Female3DCG'', MemberNumber = Some 1\<rparr>"

definition cosplayCharacter :: Character where
  "cosplayCharacter =
     testCharacter\<lparr>Appearance := [wornItem fixedEars None None],
                    OnlineSharedSettings := Some \<lparr>BlockBodyCosplay = Some False\<rparr>\<rparr>"

definition onlineCharacter :: Character where
  "onlineCharacter = testCharacter\<lparr>IsPlayer := False\<rparr>"

definition decoy :: CraftingItem where
  "decoy = \<lparr>Craft_Name = ''Fake cuffs'', Craft_Property = Some ''Decoy''\<rparr>"

definition lockedCuffs :: Item where
  "lockedCuffs = wornItem leatherCuffs None (Some 1)"

definition cuffedCharacter :: Character where
  "cuffedCharacter = testCharacter\<lparr>Appearance := [lockedCuffs]\<rparr>"

definition cuffedWorld :: World where
  "cuffedWorld =
     \<lparr>Store = [[], [(''LockedBy'', JSString ''MetalPadlock'')]], Effects = [],
      Chr = cuffedCharacter\<rparr>"

definition declaredBag :: PropertyBag where
  "declaredBag =
     [(''Type'', JSString ''Tight''),
      (''Effect'', JSArray 5 [JSString ''Block'', JSString ''Prone''])]"

definition exampleStore :: Store where
  "exampleStore =
     [declaredBag, [(''LockedBy'', JSString ''MetalPadlock''), (''Type'', JSString ''Loose'')]]"

definition simpleItem :: "string \<Rightarrow> string \<Rightarrow> SimpleItem" where
  "simpleItem grp name = \<lparr>Name = name, Group = grp, Type = None\<rparr>"

definition wheelItem :: "string \<Rightarrow> string \<Rightarrow> FortuneWheelItem" where
  "wheelItem grp name =
     \<lparr>Name = name, Group = grp, Type = None, Color = None, Craft = None, Property = 0,
      Equip = None, ItemCallback = None, Custom = False\<rparr>"

definition testGraph :: Graph where
  "testGraph = [(''A'', \<lparr>block = [''B''], priority = None\<rparr>),
                (''B'', \<lparr>block = [], priority = None\<rparr>)]"

section \<open>The priority resolver\<close>

subsection \<open>The traversal keeps the recurrence\<close>

lemma map_of_skeleton: "map_of (skeleton g) k = map_option block (map_of g k)"
  by (induction g) (auto simp: skeleton_def)

lemma skeleton_setPriority: "skeleton (setPriority k p g) = skeleton g"
  by (induction g) (auto simp: skeleton_def setPriority_def)

lemma map_of_setPriority:
  "map_of (setPriority k p g) =
     (map_of g)(k := map_option (\<lambda>node. node\<lparr>priority := Some p\<rparr>) (map_of g k))"
  by (auto simp: setPriority_def map_of_map_entry split: option.splits)

lemma prioOf_setPriority_other: "b \<noteq> k \<Longrightarrow> prioOf (setPriority k p g) b = prioOf g b"
  by (simp add: prioOf_def map_of_setPriority)

lemma prioOf_setPriority_same:
  "map_of g k = Some node \<Longrightarrow> prioOf (setPriority k p g) k = Some p"
  by (simp add: prioOf_def map_of_setPriority)

lemma keeps_refl: "keeps g g"
  by (simp add: keeps_def)

lemma keeps_trans: "keeps g g1 \<Longrightarrow> keeps g1 g2 \<Longrightarrow> keeps g g2"
  by (simp add: keeps_def)

lemma keeps_block:
  assumes "keeps g g'" "map_of g k = Some node"
  shows "\<exists>node'. map_of g' k = Some node' \<and> block node' = block node"
proof -
  from assms(1) have "map_of (skeleton g') k = map_of (skeleton g) k"
    by (simp add: keeps_def)
  with assms(2) show ?thesis
    by (auto simp: map_of_skeleton)
qed

lemma setPriority_consistent:
  assumes inv: "consistent g"
    and node: "map_of g k = Some node"
    and same: "\<And>q. priority node = Some q \<Longrightarrow> q = p"
    and eqn: "if block node = [] then p = 0
         else (\<forall>b \<in> set (block node). prioOf g b \<noteq> None)
              \<and> p = 1 + Math_max (map (\<lambda>b. the (prioOf g b)) (block node))"
  shows "consistent (setPriority k p g) \<and> keeps g (setPriority k p g)
         \<and> prioOf (setPriority k p g) k = Some p"
proof -
  let ?g = "setPriority k p g"
  have pres: "prioOf ?g b = Some v" if "prioOf g b = Some v" for b v
  proof (cases "b = k")
    case True
    with that node same show ?thesis
      by (auto simp: prioOf_def map_of_setPriority)
  next
    case False
    with that show ?thesis by (simp add: prioOf_setPriority_other)
  qed
  have pres': "prioOf ?g b = prioOf g b" if "prioOf g b \<noteq> None" for b
    using that pres by fastforce
  have maps: "map (\<lambda>b. the (prioOf ?g b)) bs = map (\<lambda>b. the (prioOf g b)) bs"
    if "\<forall>b \<in> set bs. prioOf g b \<noteq> None" for bs
    using that pres' by (induction bs) auto
  have k: "keeps g ?g"
    using pres by (simp add: keeps_def skeleton_setPriority)
  have "consistent ?g"
    unfolding consistent_def
  proof (intro allI impI)
    fix k2 node2 p2
    assume n2: "map_of ?g k2 = Some node2" and p2: "priority node2 = Some p2"
    show "if block node2 = [] then p2 = 0
         else (\<forall>b \<in> set (block node2). prioOf ?g b \<noteq> None)
              \<and> p2 = 1 + Math_max (map (\<lambda>b. the (prioOf ?g b)) (block node2))"
    proof (cases "k2 = k")
      case True
      with n2 node have "node2 = node\<lparr>priority := Some p\<rparr>"
        by (simp add: map_of_setPriority)
      with p2 have b2: "block node2 = block node" and pp: "p2 = p" by auto
      show ?thesis
      proof (cases "block node = []")
        case True
        with eqn b2 pp show ?thesis by simp
      next
        case False
        with eqn have res: "\<forall>b \<in> set (block node). prioOf g b \<noteq> None"
          and pe: "p = 1 + Math_max (map (\<lambda>b. the (prioOf g b)) (block node))"
          by auto
        from res pres' have "\<forall>b \<in> set (block node). prioOf ?g b \<noteq> None"
          by simp
        moreover have "p = 1 + Math_max (map (\<lambda>b. the (prioOf ?g b)) (block node))"
          unfolding maps [OF res] by (rule pe)
        ultimately show ?thesis
          using False b2 pp by simp
      qed
    next
      case False
      with n2 have "map_of g k2 = Some node2"
        by (simp add: map_of_setPriority)
      with inv p2 have "if block node2 = [] then p2 = 0
         else (\<forall>b \<in> set (block node2). prioOf g b \<noteq> None)
              \<and> p2 = 1 + Math_max (map (\<lambda>b. the (prioOf g b)) (block node2))"
        unfolding consistent_def by blast
      then show ?thesis
      proof (cases "block node2 = []")
        case True
        assume "if block node2 = [] then p2 = 0
         else (\<forall>b \<in> set (block node2). prioOf g b \<noteq> None)
              \<and> p2 = 1 + Math_max (map (\<lambda>b. the (prioOf g b)) (block node2))"
        with True show ?thesis by simp
      next
        case False
        assume "if block node2 = [] then p2 = 0
         else (\<forall>b \<in> set (block node2). prioOf g b \<noteq> None)
              \<and> p2 = 1 + Math_max (map (\<lambda>b. the (prioOf g b)) (block node2))"
        with False have res: "\<forall>b \<in> set (block node2). prioOf g b \<noteq> None"
          and pe: "p2 = 1 + Math_max (map (\<lambda>b. the (prioOf g b)) (block node2))"
          by auto
        from res pres' have "\<forall>b \<in> set (block node2). prioOf ?g b \<noteq> None"
          by simp
        moreover have "p2 = 1 + Math_max (map (\<lambda>b. the (prioOf ?g b)) (block node2))"
          unfolding maps [OF res] by (rule pe)
        ultimately show ?thesis
          using False by simp
      qed
    qed
  qed
  with k node show ?thesis
    by (simp add: prioOf_setPriority_same)
qed

lemma keeps_prioOf: "keeps g g' \<Longrightarrow> prioOf g b = Some v \<Longrightarrow> prioOf g' b = Some v"
  by (simp add: keeps_def)

lemma dfsLoop_sound:
  assumes "dfsSound dfs"
  shows "consistent g \<Longrightarrow> dfsLoop dfs g bs ps = Some (g', ps') \<Longrightarrow>
         consistent g' \<and> keeps g g' \<and> (\<forall>b \<in> set bs. prioOf g' b \<noteq> None)
         \<and> ps' = ps @ map (\<lambda>b. the (prioOf g' b)) bs"
proof (induction bs arbitrary: g ps)
  case Nil
  then show ?case by (simp add: keeps_refl)
next
  case (Cons b bs)
  from Cons.prems(2) obtain g1 p where
    step: "dfs g b = Some (g1, p)" and rest: "dfsLoop dfs g1 bs (ps @ [p]) = Some (g', ps')"
    by (auto split: option.splits)
  from assms Cons.prems(1) step have g1: "consistent g1" "keeps g g1" "prioOf g1 b = Some p"
    unfolding dfsSound_def by blast+
  from Cons.IH [OF g1(1) rest] have ih: "consistent g'" "keeps g1 g'"
    "\<forall>b \<in> set bs. prioOf g' b \<noteq> None" "ps' = (ps @ [p]) @ map (\<lambda>b. the (prioOf g' b)) bs"
    by auto
  from keeps_prioOf [OF ih(2) g1(3)] have pb: "prioOf g' b = Some p" .
  from g1(2) ih(2) have "keeps g g'" by (rule keeps_trans)
  with ih pb show ?case by simp
qed

lemma itemsArgSortDFS_sound: "dfsSound (itemsArgSortDFS fuel)"
proof (induction fuel)
  case 0
  show ?case by (simp add: dfsSound_def)
next
  case (Suc fuel)
  show ?case
    unfolding dfsSound_def
  proof (intro allI impI)
    fix g k g' p
    assume inv: "consistent g" and run: "itemsArgSortDFS (Suc fuel) g k = Some (g', p)"
    show "consistent g' \<and> keeps g g' \<and> prioOf g' k = Some p"
    proof (cases "map_of g k")
      case None
      with run inv show ?thesis by (auto simp: keeps_refl prioOf_def)
    next
      case (Some node)
      note node = this
      show ?thesis
      proof (cases "priority node")
        case (Some q)
        with node run inv show ?thesis by (auto simp: keeps_refl prioOf_def)
      next
        case None
        note unresolved = this
        show ?thesis
        proof (cases "block node = []")
          case True
          with node unresolved run have g': "g' = setPriority k 0 g" and p: "p = 0" by auto
          have "consistent (setPriority k 0 g) \<and> keeps g (setPriority k 0 g)
                \<and> prioOf (setPriority k 0 g) k = Some 0"
            by (rule setPriority_consistent [OF inv node]) (simp_all add: unresolved True)
          with g' p show ?thesis by simp
        next
          case False
          with node unresolved run obtain g1 ps where
            loop: "dfsLoop (itemsArgSortDFS fuel) g (block node) [] = Some (g1, ps)"
            and g': "g' = setPriority k (1 + Math_max ps) g1" and p: "p = 1 + Math_max ps"
            by (auto split: option.splits simp: Let_def)
          from dfsLoop_sound [OF Suc inv loop] have g1: "consistent g1" "keeps g g1"
            "\<forall>b \<in> set (block node). prioOf g1 b \<noteq> None"
            "ps = map (\<lambda>b. the (prioOf g1 b)) (block node)"
            by auto
          from keeps_block [OF g1(2) node] obtain node1 where
            node1: "map_of g1 k = Some node1" and b1: "block node1 = block node"
            by blast
          have eqn: "if block node1 = [] then p = 0
             else (\<forall>b \<in> set (block node1). prioOf g1 b \<noteq> None)
                  \<and> p = 1 + Math_max (map (\<lambda>b. the (prioOf g1 b)) (block node1))"
            using False b1 g1(3,4) p by simp
          have same: "q = p" if "priority node1 = Some q" for q
          proof -
            from g1(1) node1 that
            have "if block node1 = [] then q = 0
               else (\<forall>b \<in> set (block node1). prioOf g1 b \<noteq> None)
                    \<and> q = 1 + Math_max (map (\<lambda>b. the (prioOf g1 b)) (block node1))"
              unfolding consistent_def by blast
            with eqn False b1 show ?thesis by simp
          qed
          have "consistent (setPriority k p g1) \<and> keeps g1 (setPriority k p g1)
                \<and> prioOf (setPriority k p g1) k = Some p"
            by (rule setPriority_consistent [OF g1(1) node1 same eqn])
          with g' p g1(2) show ?thesis
            by (auto intro: keeps_trans)
        qed
      qed
    qed
  qed
qed

lemma keeps_skeleton: "keeps g g' \<Longrightarrow> skeleton g' = skeleton g"
  by (simp add: keeps_def)

lemma keys_skeleton: "fst ` set (skeleton g) = fst ` set g"
  by (force simp: skeleton_def)

lemma blockEdges_skeleton:
  "blockEdges g =
     {(b, k). \<exists>bs. map_of (skeleton g) k = Some bs \<and> b \<in> set bs \<and> b \<in> fst ` set (skeleton g)}"
  by (auto simp: blockEdges_def map_of_skeleton keys_skeleton)

lemma finite_blockEdges: "finite (blockEdges g)"
proof (rule finite_subset)
  show "blockEdges g \<subseteq> fst ` set g \<times> fst ` set g"
    by (auto simp: blockEdges_def dest: map_of_SomeD intro: rev_image_eqI)
  show "finite (fst ` set g \<times> fst ` set g)" by simp
qed

lemma dfsLoop_returns:
  assumes sound: "dfsSound dfs"
    and calls: "\<And>b g. b \<in> set bs \<Longrightarrow> consistent g \<Longrightarrow> skeleton g = sk \<Longrightarrow> dfs g b \<noteq> None"
  shows "consistent g \<Longrightarrow> skeleton g = sk \<Longrightarrow> dfsLoop dfs g bs ps \<noteq> None"
  using calls
proof (induction bs arbitrary: g ps)
  case Nil
  then show ?case by simp
next
  case (Cons b bs)
  from Cons.prems(3) [of b g] Cons.prems(1,2) obtain g1 p where step: "dfs g b = Some (g1, p)"
    by auto
  from sound Cons.prems(1) step have g1: "consistent g1" "keeps g g1"
    unfolding dfsSound_def by blast+
  from g1(2) Cons.prems(2) have sk: "skeleton g1 = sk"
    by (simp add: keeps_skeleton)
  have "dfsLoop dfs g1 bs (ps @ [p]) \<noteq> None"
    by (rule Cons.IH [OF g1(1) sk]) (simp add: Cons.prems(3))
  with step show ?case by simp
qed

lemma returnsFrom_mono: "returnsFrom n sk k \<Longrightarrow> n \<le> m \<Longrightarrow> returnsFrom m sk k"
  by (simp add: returnsFrom_def)

lemma returnsFrom_list:
  "(\<And>b. b \<in> set bs \<Longrightarrow> \<exists>n. returnsFrom n sk b) \<Longrightarrow> \<exists>n. \<forall>b \<in> set bs. returnsFrom n sk b"
proof (induction bs)
  case Nil
  then show ?case by simp
next
  case (Cons b bs)
  from Cons.prems [of b] obtain n1 where n1: "returnsFrom n1 sk b" by auto
  from Cons.IH Cons.prems obtain n2 where n2: "\<forall>b \<in> set bs. returnsFrom n2 sk b" by auto
  have "\<forall>c \<in> set (b # bs). returnsFrom (max n1 n2) sk c"
    using n1 n2 by (auto intro: returnsFrom_mono)
  then show ?case ..
qed

lemma itemsArgSortDFS_returns:
  assumes "acyclic (blockEdges G)"
  shows "\<exists>n. returnsFrom n (skeleton G) k"
proof -
  from assms have "wf (blockEdges G)"
    by (simp add: finite_acyclic_wf finite_blockEdges)
  then show ?thesis
  proof (induction k rule: wf_induct_rule)
    case (less k)
    show ?case
    proof (cases "map_of (skeleton G) k")
      case None
      have "returnsFrom 1 (skeleton G) k"
        unfolding returnsFrom_def
      proof (intro allI impI)
        fix g fuel
        assume sk: "skeleton g = skeleton G" and fuel: "(1::nat) \<le> fuel"
        from fuel obtain f where f: "fuel = Suc f" by (cases fuel) auto
        from None sk have "map_of g k = None"
          by (metis map_of_skeleton option.map_disc_iff)
        with f show "itemsArgSortDFS fuel g k \<noteq> None" by simp
      qed
      then show ?thesis ..
    next
      case (Some bs)
      have "\<exists>n. returnsFrom n (skeleton G) b" if "b \<in> set bs" for b
      proof (cases "b \<in> fst ` set (skeleton G)")
        case True
        with Some that have "(b, k) \<in> blockEdges G"
          by (auto simp: blockEdges_skeleton)
        then show ?thesis by (rule less.IH)
      next
        case False
        then have none: "map_of (skeleton G) b = None"
          by (simp add: map_of_eq_None_iff)
        have "returnsFrom 1 (skeleton G) b"
          unfolding returnsFrom_def
        proof (intro allI impI)
          fix g fuel
          assume sk: "skeleton g = skeleton G" and fuel: "(1::nat) \<le> fuel"
          from fuel obtain f where f: "fuel = Suc f" by (cases fuel) auto
          from none sk have "map_of g b = None"
            by (metis map_of_skeleton option.map_disc_iff)
          with f show "itemsArgSortDFS fuel g b \<noteq> None" by simp
        qed
        then show ?thesis ..
      qed
      then obtain n where n: "\<forall>b \<in> set bs. returnsFrom n (skeleton G) b"
        using returnsFrom_list by blast
      have "returnsFrom (Suc n) (skeleton G) k"
        unfolding returnsFrom_def
      proof (intro allI impI)
        fix g fuel
        assume inv: "consistent g" and sk: "skeleton g = skeleton G" and fuel: "Suc n \<le> fuel"
        from fuel obtain f where f: "fuel = Suc f" and nf: "n \<le> f" by (cases fuel) auto
        from Some sk obtain node where node: "map_of g k = Some node" and b: "block node = bs"
          by (metis map_of_skeleton map_option_eq_Some)
        have "dfsLoop (itemsArgSortDFS f) g bs [] \<noteq> None"
        proof (rule dfsLoop_returns [OF itemsArgSortDFS_sound _ inv sk])
          fix c g1
          assume "c \<in> set bs" "consistent g1" "skeleton g1 = skeleton G"
          with n nf show "itemsArgSortDFS f g1 c \<noteq> None"
            unfolding returnsFrom_def by blast
        qed
        with f node b show "itemsArgSortDFS fuel g k \<noteq> None"
          by (auto split: option.splits simp: Let_def)
      qed
      then show ?thesis ..
    qed
  qed
qed

lemma resolvePriorities_sound:
  "consistent g \<Longrightarrow> resolvePriorities fuel ks g = Some g' \<Longrightarrow>
   consistent g' \<and> keeps g g' \<and> (\<forall>k \<in> set ks. prioOf g' k \<noteq> None)"
proof (induction ks arbitrary: g)
  case Nil
  then show ?case by (simp add: keeps_refl)
next
  case (Cons k ks)
  from Cons.prems(2) obtain g1 p where
    step: "itemsArgSortDFS fuel g k = Some (g1, p)" and rest: "resolvePriorities fuel ks g1 = Some g'"
    by (auto split: option.splits)
  from itemsArgSortDFS_sound [of fuel] Cons.prems(1) step
  have g1: "consistent g1" "keeps g g1" "prioOf g1 k = Some p"
    unfolding dfsSound_def by blast+
  from Cons.IH [OF g1(1) rest] have ih: "consistent g'" "keeps g1 g'"
    "\<forall>k \<in> set ks. prioOf g' k \<noteq> None"
    by auto
  from keeps_prioOf [OF ih(2) g1(3)] have "prioOf g' k \<noteq> None" by simp
  moreover from g1(2) ih(2) have "keeps g g'" by (rule keeps_trans)
  ultimately show ?case using ih by simp
qed

lemma resolvePriorities_returns:
  assumes "\<forall>k \<in> set ks. returnsFrom n sk k" "n \<le> fuel"
  shows "consistent g \<Longrightarrow> skeleton g = sk \<Longrightarrow> resolvePriorities fuel ks g \<noteq> None"
  using assms(1)
proof (induction ks arbitrary: g)
  case Nil
  then show ?case by simp
next
  case (Cons k ks)
  from Cons.prems assms(2) obtain g1 p where step: "itemsArgSortDFS fuel g k = Some (g1, p)"
    unfolding returnsFrom_def by fastforce
  from itemsArgSortDFS_sound [of fuel] Cons.prems(1) step
  have g1: "consistent g1" "keeps g g1"
    unfolding dfsSound_def by blast+
  from g1(2) Cons.prems(2) have sk: "skeleton g1 = sk"
    by (simp add: keeps_skeleton)
  have "resolvePriorities fuel ks g1 \<noteq> None"
    by (rule Cons.IH [OF g1(1) sk]) (use Cons.prems(3) in simp)
  with step show ?case by simp
qed

lemma buildGraph_unresolved:
  "\<forall>k node. map_of g0 k = Some node \<longrightarrow> priority node = None \<Longrightarrow>
   buildGraph engine character items g0 = Inr g \<Longrightarrow>
   \<forall>k node. map_of g k = Some node \<longrightarrow> priority node = None"
proof (induction items arbitrary: g0)
  case Nil
  then show ?case by simp
next
  case (Cons item items)
  show ?case
  proof (cases "AssetGet engine (AssetFamily character) (Group item) (Name item)")
    case None
    with Cons.prems(2) show ?thesis by simp
  next
    case (Some asset)
    show ?thesis
    proof (cases "Category (Asset_Group asset) = ''Item''")
      case False
      with Some Cons.prems(2) have "buildGraph engine character items g0 = Inr g" by simp
      from Cons.IH [OF Cons.prems(1) this] show ?thesis .
    next
      case True
      let ?node = "\<lparr>block = Set_new (orEmpty (Asset_Block asset)
                     @ orEmpty (Property_Block (getBaselineProperty engine asset character (Type item)))),
                    priority = None\<rparr>"
      from True Some Cons.prems(2)
      have run: "buildGraph engine character items (AList.update (Group item) ?node g0) = Inr g"
        by (simp add: Let_def)
      have "\<forall>k node. map_of (AList.update (Group item) ?node g0) k = Some node
              \<longrightarrow> priority node = None"
        using Cons.prems(1) by (auto simp: update_conv')
      from Cons.IH [OF this run] show ?thesis .
    qed
  qed
qed

lemma Math_max_Max: "bs \<noteq> [] \<Longrightarrow> Math_max (map f bs) = Max (f ` set bs)"
  by (cases bs) (simp_all add: Max.set_eq_fold [symmetric])

lemma map_of_collectPriorities:
  "map_of (collectPriorities g) k = map_option priority (map_of g k)"
  by (induction g) (auto simp: collectPriorities_def)

lemma blockedPriority_collect:
  "prioOf g b \<noteq> None \<Longrightarrow> blockedPriority (collectPriorities g) b = the (prioOf g b)"
  by (auto simp: blockedPriority_def prioOf_def map_of_collectPriorities split: option.splits)

subsection \<open>Priorities of an acyclic graph\<close>

lemma testGraph_build:
  "buildGraph testEngine testCharacter [simpleItem ''A'' ''a'', simpleItem ''B'' ''b''] []
     = Inr testGraph"
  by (simp add: testEngine_def testCharacter_def simpleItem_def testAssets_def leatherCuffs_def dress_def mkAsset_def
      mkGroup_def orEmpty_def Set_new_def Set_from_def Set_add_def testGraph_def)

lemma testGraph_acyclic: "acyclic (blockEdges testGraph)"
proof -
  have "blockEdges testGraph = {(''B'', ''A'')}"
    by (auto simp: blockEdges_def testGraph_def split: if_splits)
  moreover have "acyclic ({} :: (string \<times> string) set)"
    by (simp add: acyclic_def)
  ultimately show ?thesis
    by simp
qed

text \<open>
  Claim C3. Let \<^verbatim>\<open>itemsArgSort\<close> build a graph from an item list, and let the blocking
  relation of that graph be acyclic. Then the traversal returns for every large enough
  depth of recursion, and the record it yields has one entry per node of the graph: \<open>0\<close>
  for a node whose block set is empty, and otherwise one more than the maximum, over the
  slots the node blocks, of the priority of the slot, a slot without a node counting
  \<open>- 1\<close>.
\<close>

theorem itemsArgSort_priorities:
  assumes build: "buildGraph engine character items [] = Inr graph"
    and acyc: "acyclic (blockEdges graph)"
  shows "\<exists>n. \<forall>fuel\<ge>n. \<exists>sortRecord.
           itemsArgSort fuel engine (ArrayOf items) character = Some (Inr sortRecord)
           \<and> map fst sortRecord = map fst graph
           \<and> (\<forall>grp node. map_of graph grp = Some node \<longrightarrow>
                map_of sortRecord grp =
                  Some (Some (if block node = [] then 0
                              else 1 + Max (blockedPriority sortRecord ` set (block node)))))"
proof -
  have "\<forall>k node. map_of graph k = Some node \<longrightarrow> priority node = None"
    by (rule buildGraph_unresolved [OF _ build]) simp
  then have inv: "consistent graph"
    by (simp add: consistent_def)
  have "\<And>k. k \<in> set (map fst graph) \<Longrightarrow> \<exists>n. returnsFrom n (skeleton graph) k"
    by (rule itemsArgSortDFS_returns [OF acyc])
  then obtain n where n: "\<forall>k \<in> set (map fst graph). returnsFrom n (skeleton graph) k"
    using returnsFrom_list by blast
  have "\<exists>sortRecord.
           itemsArgSort fuel engine (ArrayOf items) character = Some (Inr sortRecord)
           \<and> map fst sortRecord = map fst graph
           \<and> (\<forall>grp node. map_of graph grp = Some node \<longrightarrow>
                map_of sortRecord grp =
                  Some (Some (if block node = [] then 0
                              else 1 + Max (blockedPriority sortRecord ` set (block node)))))"
    if fuel: "n \<le> fuel" for fuel
  proof -
    from resolvePriorities_returns [OF n fuel inv refl]
    obtain g' where run: "resolvePriorities fuel (map fst graph) graph = Some g'"
      by auto
    from resolvePriorities_sound [OF inv run]
    have g': "consistent g'" "keeps graph g'" "\<forall>k \<in> set (map fst graph). prioOf g' k \<noteq> None"
      by auto
    let ?rec = "collectPriorities g'"
    from build run have res: "itemsArgSort fuel engine (ArrayOf items) character = Some (Inr ?rec)"
      by (simp add: itemsArgSort_def)
    from keeps_skeleton [OF g'(2)] have "map fst (skeleton g') = map fst (skeleton graph)"
      by simp
    then have keys: "map fst ?rec = map fst graph"
      by (simp add: skeleton_def collectPriorities_def case_prod_beta comp_def)
    have "map_of ?rec grp =
            Some (Some (if block node = [] then 0
                        else 1 + Max (blockedPriority ?rec ` set (block node))))"
      if node: "map_of graph grp = Some node" for grp node
    proof -
      from keeps_block [OF g'(2) node] obtain node' where
        node': "map_of g' grp = Some node'" and b: "block node' = block node"
        by blast
      from node have "grp \<in> set (map fst graph)"
        by (auto dest: map_of_SomeD intro: rev_image_eqI)
      with g'(3) node' obtain p where p: "priority node' = Some p"
        by (auto simp: prioOf_def)
      from g'(1) node' p
      have eqn: "if block node' = [] then p = 0
           else (\<forall>b \<in> set (block node'). prioOf g' b \<noteq> None)
                \<and> p = 1 + Math_max (map (\<lambda>b. the (prioOf g' b)) (block node'))"
        unfolding consistent_def by blast
      have "p = (if block node = [] then 0
                 else 1 + Max (blockedPriority ?rec ` set (block node)))"
      proof (cases "block node = []")
        case True
        with eqn b show ?thesis by simp
      next
        case False
        with eqn b have res: "\<forall>b \<in> set (block node). prioOf g' b \<noteq> None"
          and pe: "p = 1 + Math_max (map (\<lambda>b. the (prioOf g' b)) (block node))"
          by auto
        from res have "blockedPriority ?rec ` set (block node)
                       = (\<lambda>b. the (prioOf g' b)) ` set (block node)"
          by (intro image_cong refl) (simp add: blockedPriority_collect)
        with pe False show ?thesis
          by (simp add: Math_max_Max)
      qed
      with node' p show ?thesis
        by (simp add: map_of_collectPriorities)
    qed
    with res keys show ?thesis by blast
  qed
  then show ?thesis by blast
qed

theorem itemsArgSort_priorities_witness:
  "buildGraph testEngine testCharacter [simpleItem ''A'' ''a'', simpleItem ''B'' ''b''] []
     = Inr testGraph
   \<and> acyclic (blockEdges testGraph)
   \<and> (\<exists>n. \<forall>fuel\<ge>n. \<exists>sortRecord.
         itemsArgSort fuel testEngine
            (ArrayOf [simpleItem ''A'' ''a'', simpleItem ''B'' ''b'']) testCharacter
           = Some (Inr sortRecord)
         \<and> map fst sortRecord = [''A'', ''B'']
         \<and> map_of sortRecord ''A'' = Some (Some (1 + blockedPriority sortRecord ''B''))
         \<and> map_of sortRecord ''B'' = Some (Some 0))"
proof -
  from itemsArgSort_priorities [OF testGraph_build testGraph_acyclic]
  obtain n where n: "\<forall>fuel\<ge>n. \<exists>sortRecord.
           itemsArgSort fuel testEngine
              (ArrayOf [simpleItem ''A'' ''a'', simpleItem ''B'' ''b'']) testCharacter
             = Some (Inr sortRecord)
           \<and> map fst sortRecord = map fst testGraph
           \<and> (\<forall>grp node. map_of testGraph grp = Some node \<longrightarrow>
                map_of sortRecord grp =
                  Some (Some (if block node = [] then 0
                              else 1 + Max (blockedPriority sortRecord ` set (block node)))))"
    by blast
  have "\<exists>sortRecord.
         itemsArgSort fuel testEngine
            (ArrayOf [simpleItem ''A'' ''a'', simpleItem ''B'' ''b'']) testCharacter
           = Some (Inr sortRecord)
         \<and> map fst sortRecord = [''A'', ''B'']
         \<and> map_of sortRecord ''A'' = Some (Some (1 + blockedPriority sortRecord ''B''))
         \<and> map_of sortRecord ''B'' = Some (Some 0)" if "n \<le> fuel" for fuel
  proof -
    from n that obtain sortRecord where
      run: "itemsArgSort fuel testEngine
              (ArrayOf [simpleItem ''A'' ''a'', simpleItem ''B'' ''b'']) testCharacter
             = Some (Inr sortRecord)"
      and keys: "map fst sortRecord = map fst testGraph"
      and prio: "\<And>grp node. map_of testGraph grp = Some node \<Longrightarrow>
                map_of sortRecord grp =
                  Some (Some (if block node = [] then 0
                              else 1 + Max (blockedPriority sortRecord ` set (block node))))"
      by blast
    from prio [of "''A''" "\<lparr>block = [''B''], priority = None\<rparr>"]
    have a: "map_of sortRecord ''A'' = Some (Some (1 + blockedPriority sortRecord ''B''))"
      by (simp add: testGraph_def)
    from prio [of "''B''" "\<lparr>block = [], priority = None\<rparr>"]
    have b: "map_of sortRecord ''B'' = Some (Some 0)"
      by (simp add: testGraph_def)
    from run keys a b show ?thesis
      by (auto simp: testGraph_def)
  qed
  with testGraph_build testGraph_acyclic show ?thesis by blast
qed

section \<open>The graph builder\<close>

text \<open>
  Claim C2. The node of an included descriptor should block the union of the asset's static
  block list and the block list of its baseline property. The descriptor below has the
  static list \<open>[''ItemHands'']\<close> and the type-specific list \<open>[''ItemFeet'']\<close>; its node
  blocks the nine characters of \<open>''ItemHands''\<close> and neither of the two slots.
\<close>

theorem buildGraph_block_is_characters:
  "buildGraph testEngine testCharacter [simpleItem ''ItemArms'' ''LeatherCuffs''] []
     = Inr [(''ItemArms'',
             \<lparr>block = [''I'', ''t'', ''e'', ''m'', ''H'', ''a'', ''n'', ''d'', ''s''],
              priority = None\<rparr>)]
   \<and> AssetGet testEngine (AssetFamily testCharacter) ''ItemArms'' ''LeatherCuffs''
       = Some leatherCuffs
   \<and> orEmpty (Asset_Block leatherCuffs) = [''ItemHands'']
   \<and> orEmpty (Property_Block (getBaselineProperty testEngine leatherCuffs testCharacter None))
       = [''ItemFeet'']
   \<and> ''ItemHands'' \<notin> set [''I'', ''t'', ''e'', ''m'', ''H'', ''a'', ''n'', ''d'', ''s'']
   \<and> ''ItemFeet'' \<notin> set [''I'', ''t'', ''e'', ''m'', ''H'', ''a'', ''n'', ''d'', ''s'']"
  by (simp add: testEngine_def testCharacter_def simpleItem_def testAssets_def leatherCuffs_def dress_def mkAsset_def
      mkGroup_def orEmpty_def Set_new_def Set_from_def Set_add_def)

section \<open>The sort\<close>

lemma itemsArgSort_dress_cuffs: "itemsArgSort 2 testEngine
       (ArrayOf [simpleItem ''Cloth'' ''Dress'', simpleItem ''ItemArms'' ''LeatherCuffs''])
       testCharacter
     = Some (Inr [(''ItemArms'', Some 0)])"
  by (simp add: itemsArgSort_def testEngine_def testCharacter_def simpleItem_def testAssets_def leatherCuffs_def dress_def mkAsset_def
      mkGroup_def orEmpty_def Set_new_def Set_from_def Set_add_def numeral_2_eq_2 setPriority_def collectPriorities_def)

text \<open>
  Claim C1. \<^verbatim>\<open>fortuneItemsSort\<close> should return the list in non-decreasing priority, the
  items without a priority last. On a dress (a slot outside the \<^verbatim>\<open>Item\<close> category, so
  without a priority) followed by cuffs (priority \<open>0\<close>) it returns the list as it was: the
  function handed to the sort answers the key of its first argument, which is never
  negative, and the sort moves an element only on a negative answer.
\<close>

theorem fortuneItemsSort_keeps_order:
  "itemsArgSort 2 testEngine
       (ArrayOf [simpleItem ''Cloth'' ''Dress'', simpleItem ''ItemArms'' ''LeatherCuffs''])
       testCharacter
     = Some (Inr [(''ItemArms'', Some 0)])
   \<and> fortuneItemsSort 2 testEngine
       (ArrayOf [simpleItem ''Cloth'' ''Dress'', simpleItem ''ItemArms'' ''LeatherCuffs''])
       testCharacter
     = Some (Inr [simpleItem ''Cloth'' ''Dress'', simpleItem ''ItemArms'' ''LeatherCuffs''])"
  unfolding fortuneItemsSort_def itemsArgSort_dress_cuffs
  by (simp add: Array_sort_def CountAndMakeRun_def sortKey_def isNegative_def simpleItem_def)

section \<open>The strip policy\<close>

lemmas StripLevel_defs =
  StripLevel_NONE_def StripLevel_CLOTHES_def StripLevel_UNDERWEAR_def
  StripLevel_COSPLAY_def StripLevel_ALL_def

lemma applyStripCondition_simps:
  "applyStripCondition StripLevel_NONE character asset = Inr False"
  "applyStripCondition StripLevel_CLOTHES character asset =
     Inr (AllowNone (Asset_Group asset) \<and> \<not> BodyCosplay asset \<and> \<not> Underwear (Asset_Group asset))"
  "applyStripCondition StripLevel_UNDERWEAR character asset =
     Inr (AllowNone (Asset_Group asset) \<and> \<not> BodyCosplay asset)"
  "applyStripCondition StripLevel_COSPLAY character asset =
     Inr (if blockBodyCosplay character
          then AllowNone (Asset_Group asset) \<and> \<not> BodyCosplay asset
          else AllowNone (Asset_Group asset))"
  "applyStripCondition StripLevel_ALL character asset =
     Inr (if blockBodyCosplay character
          then AllowNone (Asset_Group asset) \<and> \<not> BodyCosplay asset
          else True)"
  by (simp_all add: applyStripCondition_def getStripCondition_def StripLevel_defs)

text \<open>
  Claim C5, as the code has it. The predicate of level \<^verbatim>\<open>NONE\<close> holds of no asset; the
  predicate of level \<^verbatim>\<open>CLOTHES\<close> holds of no underwear and of no cosplay asset; of a
  cosplay asset, the predicate of level \<^verbatim>\<open>ALL\<close> holds exactly when cosplay is not
  blocked, and the predicate of level \<^verbatim>\<open>COSPLAY\<close> exactly when cosplay is not blocked
  and the asset's group allows an empty slot. Cosplay is blocked unless the character's
  shared settings exist and set the flag to false.
\<close>

theorem strip_condition_levels:
  "applyStripCondition StripLevel_NONE character asset = Inr False
   \<and> (Underwear (Asset_Group asset) \<or> BodyCosplay asset \<longrightarrow>
        applyStripCondition StripLevel_CLOTHES character asset = Inr False)
   \<and> (BodyCosplay asset \<longrightarrow>
        applyStripCondition StripLevel_COSPLAY character asset
          = Inr (\<not> blockBodyCosplay character \<and> AllowNone (Asset_Group asset)))
   \<and> (BodyCosplay asset \<longrightarrow>
        applyStripCondition StripLevel_ALL character asset = Inr (\<not> blockBodyCosplay character))
   \<and> blockBodyCosplay character
       = (\<nexists>settings. OnlineSharedSettings character = Some settings
                       \<and> BlockBodyCosplay settings = Some False)"
proof (intro conjI)
  show "blockBodyCosplay character
       = (\<nexists>settings. OnlineSharedSettings character = Some settings
                       \<and> BlockBodyCosplay settings = Some False)"
    by (auto simp: blockBodyCosplay_def split: option.splits)
qed (simp_all add: applyStripCondition_simps)

theorem strip_condition_levels_witness:
  "BodyCosplay tail
   \<and> applyStripCondition StripLevel_NONE cosplayCharacter tail = Inr False
   \<and> applyStripCondition StripLevel_CLOTHES cosplayCharacter tail = Inr False
   \<and> applyStripCondition StripLevel_COSPLAY cosplayCharacter tail = Inr True
   \<and> applyStripCondition StripLevel_ALL cosplayCharacter tail = Inr True
   \<and> applyStripCondition StripLevel_COSPLAY testCharacter tail = Inr False
   \<and> applyStripCondition StripLevel_ALL testCharacter tail = Inr False"
proof -
  have cosplay: "BodyCosplay tail" and allow: "AllowNone (Asset_Group tail)"
    by (simp_all add: tail_def mkAsset_def mkGroup_def)
  have free: "\<not> blockBodyCosplay cosplayCharacter" and blocked: "blockBodyCosplay testCharacter"
    by (simp_all add: blockBodyCosplay_def cosplayCharacter_def testCharacter_def)
  from strip_condition_levels [of cosplayCharacter tail]
       strip_condition_levels [of testCharacter tail] cosplay allow free blocked
  show ?thesis by simp
qed

text \<open>
  Claim C5 as stated fails at level \<^verbatim>\<open>COSPLAY\<close>: cosplay is not blocked for the
  character and the asset is a cosplay asset, yet the predicate is false of it, since its
  group does not allow an empty slot; the strip leaves the item on the character.
\<close>

theorem strip_condition_cosplay_counterexample:
  "BodyCosplay fixedEars
   \<and> OnlineSharedSettings cosplayCharacter = Some \<lparr>BlockBodyCosplay = Some False\<rparr>
   \<and> applyStripCondition StripLevel_COSPLAY cosplayCharacter fixedEars = Inr False
   \<and> Appearance cosplayCharacter = [wornItem fixedEars None None]
   \<and> characterStrip StripLevel_COSPLAY (Some cosplayCharacter) = (Inr (), Some cosplayCharacter)"
proof (intro conjI)
  show "applyStripCondition StripLevel_COSPLAY cosplayCharacter fixedEars = Inr False"
    by (simp add: applyStripCondition_simps fixedEars_def mkAsset_def mkGroup_def)
  show "characterStrip StripLevel_COSPLAY (Some cosplayCharacter) = (Inr (), Some cosplayCharacter)"
    by (simp add: characterStrip_def getStripCondition_def StripLevel_defs blockBodyCosplay_def
        cosplayCharacter_def testCharacter_def fixedEars_def mkAsset_def mkGroup_def
        wornItem_def)
qed (simp_all add: cosplayCharacter_def testCharacter_def fixedEars_def mkAsset_def)

text \<open>
  Claim C9. Of two of the five strip levels, the predicate of the higher one holds of every
  asset of which the predicate of the lower one holds, for the same character.
\<close>

theorem strip_condition_monotone:
  assumes "stripLevel \<in> {StripLevel_NONE, StripLevel_CLOTHES, StripLevel_UNDERWEAR,
                          StripLevel_COSPLAY, StripLevel_ALL}"
    and "stripLevel' \<in> {StripLevel_NONE, StripLevel_CLOTHES, StripLevel_UNDERWEAR,
                          StripLevel_COSPLAY, StripLevel_ALL}"
    and "stripLevel \<le> stripLevel'"
    and "applyStripCondition stripLevel character asset = Inr True"
  shows "applyStripCondition stripLevel' character asset = Inr True"
proof -
  from assms(1) consider "stripLevel = StripLevel_NONE" | "stripLevel = StripLevel_CLOTHES"
    | "stripLevel = StripLevel_UNDERWEAR" | "stripLevel = StripLevel_COSPLAY"
    | "stripLevel = StripLevel_ALL"
    by auto
  then show ?thesis
  proof cases
    case 1
    with assms(4) show ?thesis by (simp add: applyStripCondition_simps)
  next
    case 2
    with assms(2,3) have "stripLevel' \<in> {StripLevel_CLOTHES, StripLevel_UNDERWEAR,
                          StripLevel_COSPLAY, StripLevel_ALL}"
      by (auto simp: StripLevel_defs)
    with 2 assms(4) show ?thesis
      by (auto simp: applyStripCondition_simps)
  next
    case 3
    with assms(2,3) have "stripLevel' \<in> {StripLevel_UNDERWEAR, StripLevel_COSPLAY, StripLevel_ALL}"
      by (auto simp: StripLevel_defs)
    with 3 assms(4) show ?thesis
      by (auto simp: applyStripCondition_simps)
  next
    case 4
    with assms(2,3) have "stripLevel' \<in> {StripLevel_COSPLAY, StripLevel_ALL}"
      by (auto simp: StripLevel_defs)
    with 4 assms(4) show ?thesis
      by (auto simp: applyStripCondition_simps split: if_splits)
  next
    case 5
    with assms(2,3) have "stripLevel' = StripLevel_ALL"
      by (auto simp: StripLevel_defs)
    with 5 assms(4) show ?thesis by simp
  qed
qed

theorem strip_condition_monotone_witness:
  "StripLevel_CLOTHES \<le> StripLevel_COSPLAY
   \<and> applyStripCondition StripLevel_CLOTHES testCharacter dress = Inr True
   \<and> applyStripCondition StripLevel_COSPLAY testCharacter dress = Inr True"
proof -
  have le: "StripLevel_CLOTHES \<le> StripLevel_COSPLAY"
    by (simp add: StripLevel_defs)
  have low: "applyStripCondition StripLevel_CLOTHES testCharacter dress = Inr True"
    by (simp add: applyStripCondition_simps dress_def mkAsset_def mkGroup_def)
  have "applyStripCondition StripLevel_COSPLAY testCharacter dress = Inr True"
    by (rule strip_condition_monotone [OF _ _ le low]) simp_all
  with le low show ?thesis by simp
qed

text \<open>
  Claim C10. At the levels \<^verbatim>\<open>NONE\<close>, \<^verbatim>\<open>CLOTHES\<close> and \<^verbatim>\<open>UNDERWEAR\<close> the predicate
  that \<^verbatim>\<open>getStripCondition\<close> returns is the same for any two characters.
\<close>

theorem strip_condition_ignores_character:
  assumes "stripLevel \<in> {StripLevel_NONE, StripLevel_CLOTHES, StripLevel_UNDERWEAR}"
  shows "\<exists>stripCondition. getStripCondition stripLevel character = Inr stripCondition
           \<and> getStripCondition stripLevel character' = Inr stripCondition"
  using assms by (auto simp: getStripCondition_def StripLevel_defs)

theorem strip_condition_ignores_character_witness:
  "\<exists>stripCondition. getStripCondition StripLevel_UNDERWEAR testCharacter = Inr stripCondition
      \<and> getStripCondition StripLevel_UNDERWEAR cosplayCharacter = Inr stripCondition"
  by (rule strip_condition_ignores_character) simp

section \<open>The unlock rule\<close>

text \<open>
  Claim C4, as the code has it. An item with the lock effect that is crafted as a decoy can
  be unlocked exactly when it has a lock and the lock is neither owner-only nor lover-only;
  any other item with the lock effect cannot be unlocked; an item without the lock effect
  can.
\<close>

theorem canUnlock_cases:
  "(InventoryItemHasEffect engine item ''Lock'' \<and> craftProperty item = Some ''Decoy'' \<longrightarrow>
      canUnlock engine item
        = (\<exists>lock. InventoryGetLock engine item = Some lock
                   \<and> \<not> OwnerOnly (Item_Asset lock) \<and> \<not> LoverOnly (Item_Asset lock)))
   \<and> (InventoryItemHasEffect engine other ''Lock'' \<and> craftProperty other \<noteq> Some ''Decoy'' \<longrightarrow>
        \<not> canUnlock engine other)
   \<and> (\<not> InventoryItemHasEffect engine free ''Lock'' \<longrightarrow> canUnlock engine free)"
  by (auto simp: canUnlock_def split: option.splits)

theorem canUnlock_cases_witness:
  "canUnlock testEngine (wornItem leatherCuffs (Some decoy) (Some 1))
   \<and> \<not> canUnlock testEngine (wornItem leatherCuffs (Some decoy) (Some 2))
   \<and> \<not> canUnlock testEngine lockedCuffs
   \<and> canUnlock testEngine (wornItem leatherCuffs None None)"
proof -
  have engine: "InventoryItemHasEffect testEngine = (\<lambda>item effect. effect = ''Lock'' \<and> Item_Property item \<noteq> None)"
    "InventoryGetLock testEngine = (\<lambda>item.
         if Item_Property item = Some 1 then Some (wornItem padlock None None)
         else if Item_Property item = Some 2 then Some (wornItem ownerPadlock None None)
         else None)"
    by (simp_all add: testEngine_def)
  from canUnlock_cases [of testEngine "wornItem leatherCuffs (Some decoy) (Some 1)"
         lockedCuffs "wornItem leatherCuffs None None"]
       canUnlock_cases [of testEngine "wornItem leatherCuffs (Some decoy) (Some 2)"
         lockedCuffs "wornItem leatherCuffs None None"]
  show ?thesis
    by (simp add: engine craftProperty_def wornItem_def decoy_def lockedCuffs_def padlock_def
        ownerPadlock_def mkAsset_def)
qed

text \<open>
  Claim C4 as stated fails where the lock is absent: the item is crafted as a decoy and
  has the lock effect, the engine finds no lock on it, and the item cannot be unlocked.
\<close>

theorem canUnlock_decoy_counterexample:
  "InventoryItemHasEffect testEngine (wornItem leatherCuffs (Some decoy) (Some 0)) ''Lock''
   \<and> craftProperty (wornItem leatherCuffs (Some decoy) (Some 0)) = Some ''Decoy''
   \<and> InventoryGetLock testEngine (wornItem leatherCuffs (Some decoy) (Some 0)) = None
   \<and> \<not> canUnlock testEngine (wornItem leatherCuffs (Some decoy) (Some 0))"
  by (simp add: canUnlock_def testEngine_def craftProperty_def wornItem_def decoy_def)

section \<open>The equip transaction\<close>

subsection \<open>Invalid input\<close>

text \<open>
  Claim C7. On an item list that is not an array \<^verbatim>\<open>fortuneWheelEquip\<close> throws and leaves
  the character, the store and the record of collaborator calls as they were; on a
  character that is null, or neither simple nor the player, \<^verbatim>\<open>characterStrip\<close> throws and
  leaves the character as it was.
\<close>

theorem invalid_input_throws:
  "fortuneWheelEquip engine name NotAnArray stripLevel globalCallback preRunCallback
       character outside
     = (Inl InvalidItemListType, character, outside)
   \<and> (character' = None \<or> (\<exists>c. character' = Some c \<and> \<not> (IsSimple c \<or> IsPlayer c)) \<longrightarrow>
        characterStrip stripLevel' character' = (Inl ExpectedSimpleOrPlayer, character'))"
  by (auto simp: fortuneWheelEquip_def characterStrip_def)

theorem invalid_input_throws_witness:
  "fortuneWheelEquip testEngine ''maid'' NotAnArray StripLevel_ALL None None
       (Some cuffedCharacter) \<lparr>Store = Store cuffedWorld, Effects = []\<rparr>
     = (Inl InvalidItemListType, Some cuffedCharacter,
        \<lparr>Store = Store cuffedWorld, Effects = []\<rparr>)
   \<and> \<not> (IsSimple onlineCharacter \<or> IsPlayer onlineCharacter)
   \<and> characterStrip StripLevel_ALL (Some onlineCharacter)
       = (Inl ExpectedSimpleOrPlayer, Some onlineCharacter)"
proof -
  have other: "\<not> (IsSimple onlineCharacter \<or> IsPlayer onlineCharacter)"
    by (simp add: onlineCharacter_def testCharacter_def)
  from invalid_input_throws [of testEngine "''maid''" StripLevel_ALL None None
         "Some cuffedCharacter" "\<lparr>Store = Store cuffedWorld, Effects = []\<rparr>"
         "Some onlineCharacter" StripLevel_ALL] other
  show ?thesis by simp
qed

subsection \<open>Merging the declared properties\<close>

lemma map_of_fold_update:
  "map_of (fold (\<lambda>(key, v) bag. AList.update key v bag) source target)
     = map_of target ++ map_of (rev source)"
proof (induction source arbitrary: target)
  case Nil
  show ?case by simp
next
  case (Cons entry source)
  obtain key v where entry: "entry = (key, v)" by (cases entry)
  have "map_of (fold (\<lambda>(key, v) bag. AList.update key v bag) (entry # source) target)
        = map_of (AList.update key v target) ++ map_of (rev source)"
    by (simp add: entry Cons.IH)
  also have "\<dots> = map_of target ++ (map_of [(key, v)] ++ map_of (rev source))"
    by (simp add: update_conv' map_add_upd_left)
  finally show ?case
    by (simp add: entry)
qed

lemma map_of_rev_distinct: "distinct (map fst xs) \<Longrightarrow> map_of (rev xs) = map_of xs"
proof (induction xs)
  case Nil
  show ?case by simp
next
  case (Cons x xs)
  obtain key v where x: "x = (key, v)" by (cases x)
  from Cons.prems x have fresh: "map_of xs key = None"
    by (simp add: map_of_eq_None_iff)
  from Cons have ih: "map_of (rev xs) = map_of xs" by simp
  show ?case
  proof
    fix k
    show "map_of (rev (x # xs)) k = map_of (x # xs) k"
      using fresh by (simp add: x ih map_add_def split: option.splits)
  qed
qed

lemma Object_assign_entries:
  assumes "target < length store" "distinct (map fst (store ! source))"
  shows "map_of (Object_assign target source store ! target)
           = map_of (store ! target) ++ map_of (store ! source)"
  using assms by (simp add: Object_assign_def map_of_fold_update map_of_rev_distinct)

lemma oidsOf_relabel: "set (oidsOf (relabel f v)) = f ` set (oidsOf v)"
  by (induction v) (auto simp: image_Un image_UN)

lemma relabel_relabel: "relabel g (relabel f v) = relabel (g \<circ> f) v"
  by (induction v) auto

lemma content_relabel: "content (relabel f v) = content v"
  by (simp add: content_def relabel_relabel comp_def)

lemma fold_max_le: "m \<le> fold (\<lambda>i next. max (Suc i) next) xs (m::nat)"
proof (induction xs arbitrary: m)
  case Nil
  show ?case by simp
next
  case (Cons x xs)
  have "m \<le> max (Suc x) m" by simp
  also have "\<dots> \<le> fold (\<lambda>i next. max (Suc i) next) xs (max (Suc x) m)"
    by (rule Cons.IH)
  finally show ?case by simp
qed

lemma fold_max_above: "i \<in> set xs \<Longrightarrow> i < fold (\<lambda>i next. max (Suc i) next) xs (m::nat)"
proof (induction xs arbitrary: m)
  case Nil
  then show ?case by simp
next
  case (Cons x xs)
  show ?case
  proof (cases "i = x")
    case True
    have "Suc x \<le> max (Suc x) m" by simp
    also have "\<dots> \<le> fold (\<lambda>i next. max (Suc i) next) xs (max (Suc x) m)"
      by (rule fold_max_le)
    finally show ?thesis using True by simp
  next
    case False
    with Cons.prems have "i \<in> set xs" by simp
    from Cons.IH [OF this] show ?thesis by simp
  qed
qed

lemma freshOid_above: "i \<in> set (storeOids store) \<Longrightarrow> i < freshOid store"
  unfolding freshOid_def by (rule fold_max_above)

lemma relabel_fresh: "set (oidsOf (relabel (\<lambda>i. freshOid store + i) v)) \<inter> set (storeOids store) = {}"
proof -
  have "freshOid store \<le> j" if "j \<in> set (oidsOf (relabel (\<lambda>i. freshOid store + i) v))" for j
    using that by (auto simp: oidsOf_relabel)
  moreover have "j < freshOid store" if "j \<in> set (storeOids store)" for j
    using that by (rule freshOid_above)
  ultimately show ?thesis by fastforce
qed

lemma map_of_copied:
  "map_of (map (\<lambda>entry. (fst entry, f (snd entry))) bag) key = map_option f (map_of bag key)"
  by (induction bag) auto

lemma deepCopy_store:
  "deepCopy declared store = (copy, store') \<Longrightarrow>
   copy = length store \<and> length store' = Suc (length store)
   \<and> (\<forall>a<length store. store' ! a = store ! a)
   \<and> map fst (store' ! copy) = map fst (store ! declared)
   \<and> set (bagOids (store' ! copy)) \<inter> set (storeOids store) = {}
   \<and> (\<forall>key. map_of (store' ! copy) key
          = map_option (relabel (\<lambda>i. freshOid store + i)) (map_of (store ! declared) key))"
proof -
  assume run: "deepCopy declared store = (copy, store')"
  let ?bag = "map (\<lambda>entry. (fst entry, relabel (\<lambda>i. freshOid store + i) (snd entry)))
                (store ! declared)"
  from run have copy: "copy = length store" and store': "store' = store @ [?bag]"
    by (simp_all add: deepCopy_def)
  have cell: "store' ! copy = ?bag"
    by (simp add: copy store')
  have "set (bagOids ?bag) \<inter> set (storeOids store) = {}"
    using relabel_fresh [of store] by (fastforce simp: bagOids_def)
  then show ?thesis
    by (simp add: cell map_of_copied comp_def) (simp add: copy store' nth_append)
qed

text \<open>
  Claim C8. Let the newly equipped instance have a property bag. The property step leaves
  the instance with that bag object and changes no other bag that existed. Every key of the
  instance's bag that the declared bag does not have keeps its value. Every entry of the
  declared bag is set on the instance's bag with the same data, and no array or object in
  a value so set is one that existed before the step: the instance shares none with the
  descriptor's bag. An instance without a bag receives a new bag object with the data of the
  declared one, which is not the descriptor's bag and shares no array or object with it.
\<close>

theorem mergeProperty_keeps_other_keys:
  assumes "Item_Property newItem = Some target" and "target < length store"
    and "declared < length store" and "distinct (map fst (store ! declared))"
  shows "(\<exists>store'. mergeProperty newItem declared store = (newItem, store')
            \<and> (\<forall>a<length store. a \<noteq> target \<longrightarrow> store' ! a = store ! a)
            \<and> (\<forall>key. key \<notin> fst ` set (store ! declared) \<longrightarrow>
                  map_of (store' ! target) key = map_of (store ! target) key)
            \<and> (\<forall>key v. map_of (store ! declared) key = Some v \<longrightarrow>
                  (\<exists>v'. map_of (store' ! target) key = Some v' \<and> content v' = content v
                        \<and> set (oidsOf v') \<inter> set (storeOids store) = {})))
         \<and> (Item_Property bare = None \<longrightarrow>
              (\<exists>copy store'. mergeProperty bare declared store
                                = (bare\<lparr>Item_Property := Some copy\<rparr>, store')
                 \<and> copy \<noteq> declared
                 \<and> (\<forall>a<length store. copy \<noteq> a \<and> store' ! a = store ! a)
                 \<and> map fst (store' ! copy) = map fst (store ! declared)
                 \<and> (\<forall>key v. map_of (store ! declared) key = Some v \<longrightarrow>
                       (\<exists>v'. map_of (store' ! copy) key = Some v' \<and> content v' = content v))
                 \<and> set (bagOids (store' ! copy)) \<inter> set (storeOids store) = {}))"
proof (intro conjI impI)
  obtain copy copied where run: "deepCopy declared store = (copy, copied)"
    by (cases "deepCopy declared store")
  from deepCopy_store [OF run]
  have copy: "copy = length store" and len: "length copied = Suc (length store)"
    and old: "\<And>a. a < length store \<Longrightarrow> copied ! a = store ! a"
    and keys: "map fst (copied ! copy) = map fst (store ! declared)"
    and entries: "\<And>key. map_of (copied ! copy) key
          = map_option (relabel (\<lambda>i. freshOid store + i)) (map_of (store ! declared) key)"
    by auto
  let ?store' = "Object_assign target copy copied"
  have merge: "mergeProperty newItem declared store = (newItem, ?store')"
    using assms(1) run by (simp add: mergeProperty_def)
  have "target < length copied" using assms(2) len by simp
  moreover have "distinct (map fst (copied ! copy))"
    using assms(4) keys by simp
  ultimately have "map_of (?store' ! target) = map_of (copied ! target) ++ map_of (copied ! copy)"
    by (rule Object_assign_entries)
  then have assigned: "map_of (?store' ! target) = map_of (store ! target) ++ map_of (copied ! copy)"
    using old [OF assms(2)] by simp
  have others: "?store' ! a = store ! a" if "a < length store" "a \<noteq> target" for a
    using that old [OF that(1)] by (simp add: Object_assign_def)
  have frame: "map_of (?store' ! target) key = map_of (store ! target) key"
    if "key \<notin> fst ` set (store ! declared)" for key
  proof -
    from that have "map_of (store ! declared) key = None"
      by (simp add: map_of_eq_None_iff)
    then show ?thesis
      by (simp add: assigned entries map_add_def)
  qed
  have merged: "\<exists>v'. map_of (?store' ! target) key = Some v' \<and> content v' = content v
                  \<and> set (oidsOf v') \<inter> set (storeOids store) = {}"
    if "map_of (store ! declared) key = Some v" for key v
  proof -
    let ?v' = "relabel (\<lambda>i. freshOid store + i) v"
    from that have "map_of (?store' ! target) key = Some ?v'"
      by (simp add: assigned entries map_add_def)
    moreover have "content ?v' = content v" by (rule content_relabel)
    moreover have "set (oidsOf ?v') \<inter> set (storeOids store) = {}" by (rule relabel_fresh)
    ultimately show ?thesis by blast
  qed
  from merge others frame merged
  show "\<exists>store'. mergeProperty newItem declared store = (newItem, store')
            \<and> (\<forall>a<length store. a \<noteq> target \<longrightarrow> store' ! a = store ! a)
            \<and> (\<forall>key. key \<notin> fst ` set (store ! declared) \<longrightarrow>
                  map_of (store' ! target) key = map_of (store ! target) key)
            \<and> (\<forall>key v. map_of (store ! declared) key = Some v \<longrightarrow>
                  (\<exists>v'. map_of (store' ! target) key = Some v' \<and> content v' = content v
                        \<and> set (oidsOf v') \<inter> set (storeOids store) = {}))"
    by blast
next
  assume bare: "Item_Property bare = None"
  obtain copy copied where run: "deepCopy declared store = (copy, copied)"
    by (cases "deepCopy declared store")
  from deepCopy_store [OF run]
  have copy: "copy = length store"
    and old: "\<And>a. a < length store \<Longrightarrow> copied ! a = store ! a"
    and keys: "map fst (copied ! copy) = map fst (store ! declared)"
    and fresh: "set (bagOids (copied ! copy)) \<inter> set (storeOids store) = {}"
    and entries: "\<And>key. map_of (copied ! copy) key
          = map_option (relabel (\<lambda>i. freshOid store + i)) (map_of (store ! declared) key)"
    by auto
  have merge: "mergeProperty bare declared store = (bare\<lparr>Item_Property := Some copy\<rparr>, copied)"
    using bare run by (simp add: mergeProperty_def)
  have other: "copy \<noteq> declared" using copy assms(3) by simp
  have olds: "copy \<noteq> a \<and> copied ! a = store ! a" if "a < length store" for a
    using that copy old by simp
  have data: "\<exists>v'. map_of (copied ! copy) key = Some v' \<and> content v' = content v"
    if "map_of (store ! declared) key = Some v" for key v
    using that by (simp add: entries content_relabel)
  from merge other olds keys data fresh
  show "\<exists>copy store'. mergeProperty bare declared store
                                = (bare\<lparr>Item_Property := Some copy\<rparr>, store')
                 \<and> copy \<noteq> declared
                 \<and> (\<forall>a<length store. copy \<noteq> a \<and> store' ! a = store ! a)
                 \<and> map fst (store' ! copy) = map fst (store ! declared)
                 \<and> (\<forall>key v. map_of (store ! declared) key = Some v \<longrightarrow>
                       (\<exists>v'. map_of (store' ! copy) key = Some v' \<and> content v' = content v))
                 \<and> set (bagOids (store' ! copy)) \<inter> set (storeOids store) = {}"
    by blast
qed

theorem mergeProperty_keeps_other_keys_witness:
  "Item_Property lockedCuffs = Some 1
   \<and> set (storeOids exampleStore) = {5}
   \<and> (\<exists>store'. mergeProperty lockedCuffs 0 exampleStore = (lockedCuffs, store')
          \<and> store' ! 0 = declaredBag
          \<and> map_of (store' ! 1) ''LockedBy'' = Some (JSString ''MetalPadlock'')
          \<and> map_of (store' ! 1) ''Type'' = Some (JSString ''Tight'')
          \<and> (\<exists>v'. map_of (store' ! 1) ''Effect'' = Some v'
                 \<and> content v' = JSArray 0 [JSString ''Block'', JSString ''Prone'']
                 \<and> 5 \<notin> set (oidsOf v')))
   \<and> (\<exists>copy store'. mergeProperty (wornItem leatherCuffs None None) 0 exampleStore
                         = ((wornItem leatherCuffs None None)\<lparr>Item_Property := Some copy\<rparr>, store')
          \<and> copy \<noteq> 0
          \<and> map fst (store' ! copy) = [''Type'', ''Effect'']
          \<and> 5 \<notin> set (bagOids (store' ! copy)))"
proof -
  have bag: "Item_Property lockedCuffs = Some 1"
    by (simp add: lockedCuffs_def wornItem_def)
  have bare: "Item_Property (wornItem leatherCuffs None None) = None"
    by (simp add: wornItem_def)
  have oids: "set (storeOids exampleStore) = {5}"
    by (simp add: storeOids_def bagOids_def exampleStore_def declaredBag_def)
  have wf: "1 < length exampleStore" "0 < length exampleStore"
    "distinct (map fst (exampleStore ! 0))"
    by (simp_all add: exampleStore_def declaredBag_def)
  note inst = mergeProperty_keeps_other_keys [OF bag wf, of "wornItem leatherCuffs None None"]
  from inst obtain store' where
    run: "mergeProperty lockedCuffs 0 exampleStore = (lockedCuffs, store')"
    and others: "\<And>a. a < length exampleStore \<Longrightarrow> a \<noteq> 1 \<Longrightarrow> store' ! a = exampleStore ! a"
    and frame: "\<And>key. key \<notin> fst ` set (exampleStore ! 0) \<Longrightarrow>
                 map_of (store' ! 1) key = map_of (exampleStore ! 1) key"
    and merged: "\<And>key v. map_of (exampleStore ! 0) key = Some v \<Longrightarrow>
                 \<exists>v'. map_of (store' ! 1) key = Some v' \<and> content v' = content v
                      \<and> set (oidsOf v') \<inter> set (storeOids exampleStore) = {}"
    by blast
  from others [of 0] have untouched: "store' ! 0 = declaredBag"
    by (simp add: exampleStore_def)
  from frame [of "''LockedBy''"]
  have kept: "map_of (store' ! 1) ''LockedBy'' = Some (JSString ''MetalPadlock'')"
    by (simp add: exampleStore_def declaredBag_def)
  from merged [of "''Type''" "JSString ''Tight''"]
  have type: "map_of (store' ! 1) ''Type'' = Some (JSString ''Tight'')"
    by (auto simp: exampleStore_def declaredBag_def content_def elim: relabel.elims)
  from merged [of "''Effect''" "JSArray 5 [JSString ''Block'', JSString ''Prone'']"]
  have effect: "\<exists>v'. map_of (store' ! 1) ''Effect'' = Some v'
                 \<and> content v' = JSArray 0 [JSString ''Block'', JSString ''Prone'']
                 \<and> 5 \<notin> set (oidsOf v')"
    by (auto simp: exampleStore_def declaredBag_def content_def oids [unfolded exampleStore_def declaredBag_def])
  from inst bare obtain copy store'' where
    run2: "mergeProperty (wornItem leatherCuffs None None) 0 exampleStore
             = ((wornItem leatherCuffs None None)\<lparr>Item_Property := Some copy\<rparr>, store'')"
    and other: "copy \<noteq> 0"
    and keys: "map fst (store'' ! copy) = map fst (exampleStore ! 0)"
    and fresh: "set (bagOids (store'' ! copy)) \<inter> set (storeOids exampleStore) = {}"
    by blast
  from keys have keys': "map fst (store'' ! copy) = [''Type'', ''Effect'']"
    by (simp add: exampleStore_def declaredBag_def)
  from fresh have fresh': "5 \<notin> set (bagOids (store'' ! copy))"
    by (simp add: oids)
  from run untouched kept type effect
  have part1: "\<exists>store'. mergeProperty lockedCuffs 0 exampleStore = (lockedCuffs, store')
          \<and> store' ! 0 = declaredBag
          \<and> map_of (store' ! 1) ''LockedBy'' = Some (JSString ''MetalPadlock'')
          \<and> map_of (store' ! 1) ''Type'' = Some (JSString ''Tight'')
          \<and> (\<exists>v'. map_of (store' ! 1) ''Effect'' = Some v'
                 \<and> content v' = JSArray 0 [JSString ''Block'', JSString ''Prone'']
                 \<and> 5 \<notin> set (oidsOf v'))"
    by (intro exI [of _ store'] conjI)
  from run2 other keys' fresh'
  have part2: "\<exists>copy store'. mergeProperty (wornItem leatherCuffs None None) 0 exampleStore
                         = ((wornItem leatherCuffs None None)\<lparr>Item_Property := Some copy\<rparr>, store')
          \<and> copy \<noteq> 0
          \<and> map fst (store' ! copy) = [''Type'', ''Effect'']
          \<and> 5 \<notin> set (bagOids (store' ! copy))"
    by (intro exI [of _ copy] exI [of _ store''] conjI)
  show ?thesis
    by (intro conjI) (rule bag oids part1 part2)+
qed

subsection \<open>A locked occupant\<close>

lemma find_filter_other:
  assumes "\<And>x. P x \<Longrightarrow> Q x"
  shows "find P (filter Q xs) = find P xs"
  using assms by (induction xs) auto

lemma InventoryGet_InventoryRemove_other:
  "grp \<noteq> grp' \<Longrightarrow> InventoryGet (InventoryRemove c grp') grp = InventoryGet c grp"
proof -
  assume other: "grp \<noteq> grp'"
  have "find (inSlot grp) (filter (\<lambda>item. \<not> inSlot grp' item) (Appearance c))
          = find (inSlot grp) (Appearance c)"
    by (rule find_filter_other) (use other in \<open>auto simp: inSlot_def\<close>)
  then show ?thesis
    by (simp add: InventoryGet_def InventoryRemove_def)
qed

lemma keys_update: "fst ` set al \<subseteq> fst ` set (AList.update k v al)"
  by (auto simp: dom_update)

lemma equipChecks_fired:
  "\<not> canUnlock engine old \<Longrightarrow> filter snd (equipChecks engine character grp asset old) \<noteq> []"
  by (simp add: equipChecks_def)

lemma equipChecks_locked:
  "\<not> canUnlock engine old \<Longrightarrow>
   map fst (filter snd (equipChecks engine character grp asset old))
     = ''Locked item equiped''
       # map fst (filter snd (tl (equipChecks engine character grp asset old)))"
  by (simp add: equipChecks_def)

lemma clearStep_keeps_occupant:
  assumes occupant: "InventoryGet (Chr w) grp = Some X" and locked: "\<not> canUnlock engine X"
    and step: "clearStep engine item (w, failures, outputs) = (w', failures', outputs')"
  shows "InventoryGet (Chr w') grp = Some X \<and> AssetFamily (Chr w') = AssetFamily (Chr w)
         \<and> fst ` set failures \<subseteq> fst ` set failures'"
proof (cases "AssetGet engine (AssetFamily (Chr w)) (Group item) (Name item)")
  case None
  with step have "w' = w" and "failures' = AList.update (Name item) [''Unknown asset''] failures"
    by (auto simp: clearStep_def)
  with occupant keys_update [of failures] show ?thesis
    by simp
next
  case (Some a)
  note asset = this
  show ?thesis
  proof (cases "equipResult item w")
    case False
    with asset step occupant show ?thesis
      by (auto simp: clearStep_def)
  next
    case True
    note equip = this
    show ?thesis
    proof (cases "InventoryGet (Chr w) (Group item)")
      case None
      with asset equip step occupant show ?thesis
        by (auto simp: clearStep_def)
    next
      case (Some old)
      note old = this
      show ?thesis
      proof (cases "filter snd (equipChecks engine (Chr w) (Group item) a old) = []")
        case False
        with asset equip old step
        have "w' = w" and "failures' = AList.update (Description a)
              (map fst (filter snd (equipChecks engine (Chr w) (Group item) a old))) failures"
          by (auto simp: clearStep_def Let_def)
        with occupant keys_update [of failures] show ?thesis
          by simp
      next
        case True
        then have "canUnlock engine old"
          by (simp add: equipChecks_def split: if_splits)
        with old occupant locked have other: "grp \<noteq> Group item"
          by auto
        from True asset equip old step
        have "w' = w\<lparr>Chr := InventoryRemove (Chr w) (Group item)\<rparr>" and "failures' = failures"
          by (auto simp: clearStep_def Let_def)
        moreover have "AssetFamily (InventoryRemove (Chr w) (Group item)) = AssetFamily (Chr w)"
          by (simp add: InventoryRemove_def)
        ultimately show ?thesis
          using occupant other by (simp add: InventoryGet_InventoryRemove_other)
      qed
    qed
  qed
qed

lemma clearing_keeps_occupant:
  assumes locked: "\<not> canUnlock engine X"
  shows "InventoryGet (Chr w) grp = Some X \<Longrightarrow>
         fold (clearStep engine) itemList (w, failures, outputs) = (w', failures', outputs') \<Longrightarrow>
         InventoryGet (Chr w') grp = Some X \<and> AssetFamily (Chr w') = AssetFamily (Chr w)
         \<and> fst ` set failures \<subseteq> fst ` set failures'"
proof (induction itemList arbitrary: w failures outputs)
  case Nil
  then show ?case by simp
next
  case (Cons item itemList)
  obtain w1 failures1 outputs1 where
    step: "clearStep engine item (w, failures, outputs) = (w1, failures1, outputs1)"
    by (cases "clearStep engine item (w, failures, outputs)")
  from clearStep_keeps_occupant [OF Cons.prems(1) locked step]
  have one: "InventoryGet (Chr w1) grp = Some X" "AssetFamily (Chr w1) = AssetFamily (Chr w)"
    "fst ` set failures \<subseteq> fst ` set failures1"
    by auto
  from Cons.prems(2) step
  have "fold (clearStep engine) itemList (w1, failures1, outputs1) = (w', failures', outputs')"
    by simp
  from Cons.IH [OF one(1) this] one(2,3) show ?case by auto
qed

text \<open>
  Claim C6, as the code has it. Let the item \<open>Y\<close> of the list resolve to an asset and not
  be suppressed by its equip predicate, and let the slot it targets hold an item \<open>X\<close> that
  cannot be unlocked. Then the clearing step of \<open>Y\<close> changes nothing but the failure
  record, where it files, under the description of \<open>Y\<close>'s asset, the names of the checks
  that fire: \<^verbatim>\<open>Locked item equiped\<close> first, then those of the three other checks that
  fire. After the clearing pass \<open>X\<close> is still in the slot, and the equip step of \<open>Y\<close>
  leaves any world of the same asset family as it is.
\<close>

theorem locked_occupant_blocks_equip:
  assumes asset: "AssetGet engine (AssetFamily (Chr w)) (Group Y) (Name Y) = Some asset"
    and occupant: "InventoryGet (Chr w) (Group Y) = Some X"
    and locked: "\<not> canUnlock engine X"
    and before: "firstPass engine before w = (w1, failures1, outputs1)"
    and equip: "equipResult Y w1"
  shows "\<exists>w' failures' outputs'.
           clearStep engine Y (w1, failures1, outputs1)
             = (w1,
                AList.update (Description asset)
                  (''Locked item equiped''
                   # map fst (filter snd (tl (equipChecks engine (Chr w1) (Group Y) asset X))))
                  failures1,
                outputs1)
           \<and> firstPass engine (before @ Y # after) w = (w', failures', outputs')
           \<and> InventoryGet (Chr w') (Group Y) = Some X
           \<and> (\<forall>w''. AssetFamily (Chr w'') = AssetFamily (Chr w) \<longrightarrow>
                 equipStep engine globalCallback failures' outputs' Y w'' = w'')"
proof -
  let ?reasons = "''Locked item equiped''
       # map fst (filter snd (tl (equipChecks engine (Chr w1) (Group Y) asset X)))"
  let ?failures2 = "AList.update (Description asset) ?reasons failures1"
  from before have run1: "fold (clearStep engine) before (w, [], []) = (w1, failures1, outputs1)"
    by (simp add: firstPass_def)
  from clearing_keeps_occupant [OF locked occupant run1]
  have w1: "InventoryGet (Chr w1) (Group Y) = Some X" "AssetFamily (Chr w1) = AssetFamily (Chr w)"
    by auto
  have step: "clearStep engine Y (w1, failures1, outputs1) = (w1, ?failures2, outputs1)"
    using asset w1 equip locked
    by (simp add: clearStep_def Let_def equipChecks_locked equipChecks_fired)
  obtain w' failures' outputs' where
    run2: "fold (clearStep engine) after (w1, ?failures2, outputs1) = (w', failures', outputs')"
    by (cases "fold (clearStep engine) after (w1, ?failures2, outputs1)")
  from clearing_keeps_occupant [OF locked w1(1) run2]
  have w': "InventoryGet (Chr w') (Group Y) = Some X"
    and keys: "fst ` set ?failures2 \<subseteq> fst ` set failures'"
    by auto
  have "Description asset \<in> fst ` set ?failures2"
    by (simp add: dom_update)
  with keys have "Description asset \<in> fst ` set failures'" by blast
  then have filed: "map_of failures' (Description asset) \<noteq> None"
    by (simp add: map_of_eq_None_iff)
  have skip: "equipStep engine globalCallback failures' outputs' Y w'' = w''"
    if "AssetFamily (Chr w'') = AssetFamily (Chr w)" for w''
    using that asset filed by (simp add: equipStep_def)
  have "firstPass engine (before @ Y # after) w = (w', failures', outputs')"
    using run1 step run2 by (simp add: firstPass_def)
  with step w' skip show ?thesis by blast
qed

theorem locked_occupant_blocks_equip_witness:
  "firstPass testEngine [wheelItem ''Cloth'' ''Dress'', wheelItem ''ItemArms'' ''LeatherCuffs'']
       cuffedWorld
     = (cuffedWorld, [(''LeatherCuffs'', [''Locked item equiped''])], [])
   \<and> InventoryGet (Chr cuffedWorld) ''ItemArms'' = Some lockedCuffs
   \<and> \<not> canUnlock testEngine lockedCuffs
   \<and> equipStep testEngine None [(''LeatherCuffs'', [''Locked item equiped''])] []
        (wheelItem ''ItemArms'' ''LeatherCuffs'') cuffedWorld
       = cuffedWorld"
proof -
  let ?Y = "wheelItem ''ItemArms'' ''LeatherCuffs''"
  have family: "AssetFamily (Chr cuffedWorld) = ''Female3DCG''"
    by (simp add: cuffedWorld_def cuffedCharacter_def testCharacter_def)
  have asset: "AssetGet testEngine (AssetFamily (Chr cuffedWorld)) (Group ?Y) (Name ?Y)
                 = Some leatherCuffs"
    by (simp add: family testEngine_def testAssets_def wheelItem_def)
  have occupant: "InventoryGet (Chr cuffedWorld) (Group ?Y) = Some lockedCuffs"
    by (simp add: InventoryGet_def inSlot_def cuffedWorld_def cuffedCharacter_def
        lockedCuffs_def wornItem_def leatherCuffs_def mkAsset_def mkGroup_def wheelItem_def)
  have locked: "\<not> canUnlock testEngine lockedCuffs"
    by (simp add: canUnlock_def testEngine_def craftProperty_def lockedCuffs_def wornItem_def)
  have before: "firstPass testEngine [wheelItem ''Cloth'' ''Dress''] cuffedWorld
                  = (cuffedWorld, [], [])"
    by (simp add: firstPass_def clearStep_def equipResult_def testEngine_def
        testAssets_def wheelItem_def InventoryGet_def inSlot_def cuffedWorld_def
        cuffedCharacter_def testCharacter_def lockedCuffs_def wornItem_def leatherCuffs_def
        mkAsset_def mkGroup_def)
  have equip: "equipResult ?Y cuffedWorld"
    by (simp add: equipResult_def wheelItem_def)
  have others: "map fst (filter snd (tl (equipChecks testEngine (Chr cuffedWorld) (Group ?Y)
                  leatherCuffs lockedCuffs))) = []"
    by (simp add: equipChecks_def testEngine_def)
  from locked_occupant_blocks_equip [OF asset occupant locked before equip, of "[]" None]
  obtain w' failures' outputs' where
    step: "clearStep testEngine ?Y (cuffedWorld, [], [])
             = (cuffedWorld,
                AList.update (Description leatherCuffs) [''Locked item equiped''] [], [])"
    and run: "firstPass testEngine ([wheelItem ''Cloth'' ''Dress''] @ [?Y]) cuffedWorld
                = (w', failures', outputs')"
    and skip: "\<And>w''. AssetFamily (Chr w'') = AssetFamily (Chr cuffedWorld) \<Longrightarrow>
                 equipStep testEngine None failures' outputs' ?Y w'' = w''"
    unfolding others by blast
  have description: "Description leatherCuffs = ''LeatherCuffs''"
    by (simp add: leatherCuffs_def mkAsset_def)
  from before step have "firstPass testEngine ([wheelItem ''Cloth'' ''Dress''] @ [?Y]) cuffedWorld
      = (cuffedWorld, [(''LeatherCuffs'', [''Locked item equiped''])], [])"
    by (simp add: firstPass_def description)
  with run have eq: "w' = cuffedWorld" "failures' = [(''LeatherCuffs'', [''Locked item equiped''])]"
    "outputs' = []"
    by simp_all
  from skip [of cuffedWorld] have "equipStep testEngine None failures' outputs' ?Y cuffedWorld
      = cuffedWorld"
    by simp
  with eq run occupant locked show ?thesis
    by (simp add: wheelItem_def)
qed

text \<open>
  Claim C6 as stated fails on the number of reasons: the cuffs on the character cannot be
  unlocked and the engine reports the slot as blocked, so two checks fire and the record of
  the new cuffs holds two reasons.
\<close>

theorem locked_occupant_two_reasons_counterexample:
  "InventoryGet (Chr cuffedWorld) ''ItemArms'' = Some lockedCuffs
   \<and> \<not> canUnlock blockingEngine lockedCuffs
   \<and> firstPass blockingEngine [wheelItem ''ItemArms'' ''LeatherCuffs''] cuffedWorld
       = (cuffedWorld,
          [(''LeatherCuffs'', [''Locked item equiped'', ''InventoryGroupIsBlocked''])], [])"
proof (intro conjI)
  show "InventoryGet (Chr cuffedWorld) ''ItemArms'' = Some lockedCuffs"
    by (simp add: InventoryGet_def inSlot_def cuffedWorld_def cuffedCharacter_def
        lockedCuffs_def wornItem_def leatherCuffs_def mkAsset_def mkGroup_def)
  show "\<not> canUnlock blockingEngine lockedCuffs"
    by (simp add: canUnlock_def blockingEngine_def testEngine_def craftProperty_def
        lockedCuffs_def wornItem_def)
  show "firstPass blockingEngine [wheelItem ''ItemArms'' ''LeatherCuffs''] cuffedWorld
       = (cuffedWorld,
          [(''LeatherCuffs'', [''Locked item equiped'', ''InventoryGroupIsBlocked''])], [])"
    by (simp add: firstPass_def clearStep_def equipResult_def equipChecks_def canUnlock_def
        craftProperty_def blockingEngine_def testEngine_def testAssets_def wheelItem_def
        InventoryGet_def inSlot_def cuffedWorld_def cuffedCharacter_def testCharacter_def
        lockedCuffs_def wornItem_def leatherCuffs_def mkAsset_def mkGroup_def)
qed

end
